theory Spec2Isabelle
  imports Main
begin

section \<open>Data model of the cluster disk and node manager\<close>

text \<open>
  The embedding follows \<^verbatim>\<open>blobstore/clustermgr/cluster/cluster.go\<close>. The manager's
  methods become functions from a manager state to a result and a new manager state.
  A Go panic (an explicit \<^verbatim>\<open>panic\<close> or a nil pointer dereference) is the value
  \<open>None\<close> of the outer option; a returned Go \<^verbatim>\<open>error\<close> is an \<open>error option\<close>
  (\<open>None\<close> is \<^verbatim>\<open>nil\<close>). Locks are not modelled: every method runs alone.
\<close>

text \<open>
  \<^verbatim>\<open>proto.DiskStatus\<close> is a small unsigned integer with five named values; any other
  code is \<open>DiskStatusUnknown\<close>.
\<close>

datatype DiskStatus =
    DiskStatusNormal
  | DiskStatusBroken
  | DiskStatusRepairing
  | DiskStatusRepaired
  | DiskStatusDropped
  | DiskStatusUnknown nat

datatype NodeStatus = NodeStatusNormal | NodeStatusDropped | NodeStatusUnknown nat

text \<open>The table \<^verbatim>\<open>validSetStatus\<close>; a lookup that misses is \<open>None\<close>.\<close>

fun validSetStatus :: "DiskStatus \<Rightarrow> int option" where
  "validSetStatus DiskStatusNormal = Some 0"
| "validSetStatus DiskStatusBroken = Some 1"
| "validSetStatus DiskStatusRepairing = Some 2"
| "validSetStatus DiskStatusRepaired = Some 3"
| "validSetStatus DiskStatusDropped = Some 4"
| "validSetStatus (DiskStatusUnknown c) = None"

text \<open>
  The errors the manager returns. \<open>ErrPersistence\<close> is an error of the persistence
  collaborator, \<open>ErrInfo e msg\<close> is \<^verbatim>\<open>errors.Info(e, msg).Detail(e)\<close> and \<open>ErrNew\<close> is
  \<^verbatim>\<open>errors.New\<close>.
\<close>

datatype error =
    ErrInvalidStatus
  | ErrCMDiskNotFound
  | ErrCMNodeNotFound
  | ErrChangeDiskStatusNotAllow
  | ErrDiskAbnormalOrNotReadOnly
  | ErrCMNodeIsDropping
  | ErrExist
  | ErrIllegalArguments
  | ErrPersistence nat
  | ErrInfo error string
  | ErrNew string

type_synonym DiskID = nat
type_synonym NodeID = nat
type_synonym DiskType = nat
type_synonym NodeSetID = nat
type_synonym DiskSetID = nat

text \<open>Modelled from the spec: the constant \<^verbatim>\<open>proto.InvalidNodeID\<close> (\<open>INVALID_NODE\<close>), whose
  declaration is not part of the sources at hand.\<close>

definition InvalidNodeID :: NodeID where
  "InvalidNodeID = 0"

text \<open>The heartbeat payload of a disk (the spec's \<open>extra\<close> field).\<close>

datatype heartbeatInfo =
    NoHeartbeatInfo
  | DiskHeartBeatInfo int int int int int
  | ShardNodeDiskHeartbeatInfo int int int int

record diskItemInfo =
  Status :: DiskStatus
  Readonly :: bool
  NodeID :: NodeID
  Host :: string
  Path :: string
  Idc :: string
  Rack :: string
  extraInfo :: heartbeatInfo

text \<open>Times are nanoseconds since a fixed epoch.\<close>

record diskItem =
  diskID :: DiskID
  info :: diskItemInfo
  dropping :: bool
  expireTime :: int
  lastExpireTime :: int

record nodeItemInfo =
  nStatus :: NodeStatus
  nHost :: string
  nIdc :: string
  nRack :: string
  nDiskType :: DiskType
  nNodeSetID :: NodeSetID

text \<open>
  A \<^verbatim>\<open>*diskItem\<close> is an address into \<open>diskHeap\<close>, a \<^verbatim>\<open>*nodeItem\<close> an address into
  \<open>nodeHeap\<close>. The map \<^verbatim>\<open>node.disks\<close> is a list of (disk id, pointer) pairs in the
  order the \<^verbatim>\<open>range\<close> loop visits them.
\<close>

type_synonym diskPtr = nat
type_synonym nodePtr = nat

record nodeItem =
  nodeID :: NodeID
  ninfo :: nodeItemInfo
  ndropping :: bool
  disks :: "(DiskID \<times> diskPtr) list"

text \<open>
  Modelled from the spec: the keys of \<^verbatim>\<open>hostPathFilter\<close>. The spec has
  \<open>(host, path)\<close> for a disk and \<open>(host, disk_type)\<close> for a node, the latter mapped
  to the node id; \<^verbatim>\<open>genFilterKey\<close> itself is not part of the sources at hand.
\<close>

datatype filterKey = DiskKey string string | NodeKey string DiskType

datatype filterVal = DiskMark | NodeVal NodeID

definition genFilterKey :: "diskItem \<Rightarrow> filterKey" where
  "genFilterKey di = DiskKey (Host (info di)) (Path (info di))"

definition genFilterKeyNode :: "nodeItem \<Rightarrow> filterKey" where
  "genFilterKeyNode ni = NodeKey (nHost (ninfo ni)) (nDiskType (ninfo ni))"

text \<open>
  Modelled from the spec: \<^verbatim>\<open>diskItem.needFilter\<close>, not part of the sources at hand.
  The spec: a filterable disk is a disk in \<open>{Normal, Broken, Repairing}\<close>.
\<close>

definition needFilter :: "diskItem \<Rightarrow> bool" where
  "needFilter di \<longleftrightarrow>
     Status (info di) = DiskStatusNormal \<or> Status (info di) = DiskStatusBroken \<or>
     Status (info di) = DiskStatusRepairing"

text \<open>
  Modelled from the spec: \<^verbatim>\<open>nodeItem.isUsingStatus\<close>, not part of the sources at hand.
  The spec gives a node the statuses \<open>Normal\<close> and \<open>Dropped\<close>; a node is in use until it
  is dropped.
\<close>

definition isUsingStatus :: "nodeItem \<Rightarrow> bool" where
  "isUsingStatus ni \<longleftrightarrow> nStatus (ninfo ni) \<noteq> NodeStatusDropped"

text \<open>
  Modelled from the spec: the topology index (\<^verbatim>\<open>topoMgr\<close>), not part of the sources
  at hand. A NodeSet is identified by its disk type and id and has a set of member
  nodes; its DiskSets, identified by their ids, each have a set of member disks.
  Removing a disk takes it out of the DiskSets of the given NodeSet; removing a node
  takes it out of the NodeSet its info names.
\<close>

record topoMgr =
  nodeSets :: "DiskType \<times> NodeSetID \<Rightarrow> NodeID set"
  diskSets :: "DiskType \<times> NodeSetID \<Rightarrow> DiskSetID \<Rightarrow> DiskID set"

definition RemoveDiskFromDiskSet ::
  "topoMgr \<Rightarrow> DiskType \<Rightarrow> NodeSetID \<Rightarrow> diskItem \<Rightarrow> topoMgr" where
  "RemoveDiskFromDiskSet t diskType nodeSetID disk =
     t\<lparr>diskSets := (diskSets t)((diskType, nodeSetID) :=
          (\<lambda>ds. diskSets t (diskType, nodeSetID) ds - {diskID disk}))\<rparr>"

definition RemoveNodeFromNodeSet :: "topoMgr \<Rightarrow> nodeItem \<Rightarrow> topoMgr" where
  "RemoveNodeFromNodeSet t node =
     t\<lparr>nodeSets := (nodeSets t)((nDiskType (ninfo node), nNodeSetID (ninfo node)) :=
          nodeSets t (nDiskType (ninfo node), nNodeSetID (ninfo node)) - {nodeID node})\<rparr>"

text \<open>
  The interface \<^verbatim>\<open>persistentHandler\<close>. Its implementation is a collaborator, so the
  handler is a parameter: a record of functions over a store \<open>'p\<close>. A write returns
  the error or the new store (a failed write leaves the store as it was); the two
  queries read the store.
\<close>

record 'p persistentHandler =
  updateDiskNoLocked :: "'p \<Rightarrow> diskItem \<Rightarrow> error + 'p"
  updateDiskStatusNoLocked :: "'p \<Rightarrow> DiskID \<Rightarrow> DiskStatus \<Rightarrow> error + 'p"
  addDiskNoLocked :: "'p \<Rightarrow> diskItem \<Rightarrow> error + 'p"
  updateNodeNoLocked :: "'p \<Rightarrow> nodeItem \<Rightarrow> error + 'p"
  addDroppingDisk :: "'p \<Rightarrow> DiskID \<Rightarrow> error + 'p"
  addDroppingNode :: "'p \<Rightarrow> NodeID \<Rightarrow> error + 'p"
  isDroppingDisk :: "'p \<Rightarrow> DiskID \<Rightarrow> error + bool"
  isDroppingNode :: "'p \<Rightarrow> NodeID \<Rightarrow> error + bool"
  droppedDisk :: "'p \<Rightarrow> DiskID \<Rightarrow> error + 'p"
  droppedNode :: "'p \<Rightarrow> NodeID \<Rightarrow> error + 'p"

text \<open>The fields of \<^verbatim>\<open>DiskMgrConfig\<close> that the modelled methods read. A code mode is
  given by its tactic \<open>(N, M, L)\<close>.\<close>

record DiskMgrConfig =
  HostAware :: bool
  HeartbeatExpireIntervalS :: int
  IDC :: "string list"
  CodeModes :: "(int \<times> int \<times> int) list"
  ChunkSize :: int
  ShardSize :: int

text \<open>
  The manager. \<open>pendingEntries\<close> is keyed by the operation type and the entity id
  (\<^verbatim>\<open>fmtApplyContextKey\<close>); \<open>pstore\<close> is the state of the persistence collaborator.
\<close>

record 'p manager =
  diskHeap :: "diskPtr \<Rightarrow> diskItem"
  nodeHeap :: "nodePtr \<Rightarrow> nodeItem"
  allDisks :: "DiskID \<rightharpoonup> diskPtr"
  allNodes :: "NodeID \<rightharpoonup> nodePtr"
  topo :: topoMgr
  hostPathFilter :: "filterKey \<rightharpoonup> filterVal"
  pendingEntries :: "string \<times> nat \<rightharpoonup> error option"
  handler :: "'p persistentHandler"
  pstore :: 'p
  cfg :: DiskMgrConfig

definition getDisk :: "'p manager \<Rightarrow> DiskID \<Rightarrow> diskPtr option" where
  "getDisk d diskId = allDisks d diskId"

definition getNode :: "'p manager \<Rightarrow> NodeID \<Rightarrow> nodePtr option" where
  "getNode d nodeId = allNodes d nodeId"

section \<open>SetStatus\<close>

text \<open>
  The first closure of \<^verbatim>\<open>SetStatus\<close> (run under the read lock). \<open>None\<close> is its panic,
  \<open>Some e\<close> the error the closure returns. A \<^verbatim>\<open>return nil\<close> inside the closure leaves
  the closure only.
\<close>

definition SetStatusCheck :: "diskItem \<Rightarrow> DiskStatus \<Rightarrow> int \<Rightarrow> bool \<Rightarrow> error option option" where
  "SetStatusCheck disk status afterSeq isCommit =
     (if Status (info disk) = status then Some None
      else if dropping disk \<and> status \<noteq> DiskStatusDropped then
        (if \<not> isCommit then Some (Some ErrChangeDiskStatusNotAllow) else Some None)
      else
        (case validSetStatus (Status (info disk)) of
           None \<Rightarrow> None
         | Some beforeSeq \<Rightarrow>
             if beforeSeq > afterSeq \<or> (afterSeq - beforeSeq > 1 \<and> status \<noteq> DiskStatusDropped)
             then (if \<not> isCommit then Some (Some ErrChangeDiskStatusNotAllow) else Some None)
             else Some None))"

text \<open>The second closure (run under the write lock), after the node lookup.\<close>

definition SetStatusApply :: "'p manager \<Rightarrow> DiskID \<Rightarrow> diskPtr \<Rightarrow> DiskStatus \<Rightarrow> error option \<times> 'p manager" where
  "SetStatusApply d diskId dp status =
     (let disk = diskHeap d dp;
          node = getNode d (NodeID (info disk))
      in if Status (info disk) = status then (None, d)
         else
           (case (if status = DiskStatusDropped
                  then droppedDisk (handler d) (pstore d) diskId
                  else updateDiskStatusNoLocked (handler d) (pstore d) diskId status) of
              Inl err \<Rightarrow> (Some (ErrInfo err ''diskMgr.SetStatus update disk info failed''), d)
            | Inr p \<Rightarrow>
                (let disk' = disk\<lparr>info := (info disk)\<lparr>Status := status\<rparr>\<rparr>;
                     d1 = d\<lparr>pstore := p, diskHeap := (diskHeap d)(dp := disk')\<rparr>;
                     d2 = (if \<not> needFilter disk'
                           then d1\<lparr>hostPathFilter := (hostPathFilter d1)(genFilterKey disk' := None)\<rparr>
                           else d1);
                     d3 = (case node of
                             Some np \<Rightarrow>
                               if \<not> needFilter disk'
                               then d2\<lparr>topo := RemoveDiskFromDiskSet (topo d2)
                                       (nDiskType (ninfo (nodeHeap d2 np)))
                                       (nNodeSetID (ninfo (nodeHeap d2 np))) disk'\<rparr>
                               else d2
                           | None \<Rightarrow> d2)
                 in (None, d3))))"

definition SetStatus ::
  "'p manager \<Rightarrow> DiskID \<Rightarrow> DiskStatus \<Rightarrow> bool \<Rightarrow> (error option \<times> 'p manager) option" where
  "SetStatus d diskId status isCommit =
     (case validSetStatus status of
        None \<Rightarrow> Some (Some ErrInvalidStatus, d)
      | Some afterSeq \<Rightarrow>
          (case getDisk d diskId of
             None \<Rightarrow> Some (Some ErrCMDiskNotFound, d)
           | Some dp \<Rightarrow>
               (case SetStatusCheck (diskHeap d dp) status afterSeq isCommit of
                  None \<Rightarrow> None
                | Some (Some err) \<Rightarrow> Some (Some err, d)
                | Some None \<Rightarrow>
                    if \<not> isCommit then Some (None, d)
                    else Some (SetStatusApply d diskId dp status))))"

section \<open>applySwitchReadonly\<close>

text \<open>
  \<^verbatim>\<open>disk, _ := d.getDisk(diskID)\<close> ignores the lookup's flag, so an unknown id is a nil
  pointer dereference (\<open>None\<close>). On a failed write the bit is set back with
  \<^verbatim>\<open>disk.info.Readonly = !readonly\<close>.
\<close>

definition applySwitchReadonly ::
  "'p manager \<Rightarrow> DiskID \<Rightarrow> bool \<Rightarrow> (error option \<times> 'p manager) option" where
  "applySwitchReadonly d diskId readonly =
     (case getDisk d diskId of
        None \<Rightarrow> None
      | Some dp \<Rightarrow>
          (let disk = diskHeap d dp
           in if Readonly (info disk) = readonly then Some (None, d)
              else
                (let disk1 = disk\<lparr>info := (info disk)\<lparr>Readonly := readonly\<rparr>\<rparr>
                 in case updateDiskNoLocked (handler d) (pstore d) disk1 of
                      Inl err \<Rightarrow>
                        Some (Some err,
                          d\<lparr>diskHeap := (diskHeap d)
                               (dp := disk1\<lparr>info := (info disk1)\<lparr>Readonly := \<not> readonly\<rparr>\<rparr>)\<rparr>)
                    | Inr p \<Rightarrow>
                        Some (None, d\<lparr>pstore := p, diskHeap := (diskHeap d)(dp := disk1)\<rparr>))))"

section \<open>applyDroppingDisk and applyDroppedDisk\<close>

text \<open>
  \<^verbatim>\<open>fmtApplyContextKey\<close> joins the operation type and the id's string with a dash; the
  model keeps the two parts as a pair.
\<close>

definition fmtApplyContextKey :: "string \<Rightarrow> nat \<Rightarrow> string \<times> nat" where
  "fmtApplyContextKey opType ident = (opType, ident)"

text \<open>The result is the pair \<^verbatim>\<open>(bool, error)\<close> of the Go method and the new manager.\<close>

definition applyDroppingDisk ::
  "'p manager \<Rightarrow> DiskID \<Rightarrow> bool \<Rightarrow> (bool \<times> error option) \<times> 'p manager" where
  "applyDroppingDisk d diskId isCommit =
     (case getDisk d diskId of
        None \<Rightarrow> ((False, Some ErrCMDiskNotFound), d)
      | Some dp \<Rightarrow>
          (let disk = diskHeap d dp
           in if dropping disk then ((True, None), d)
              else if Status (info disk) \<noteq> DiskStatusNormal \<or> \<not> Readonly (info disk) then
                (if \<not> isCommit then ((False, Some ErrDiskAbnormalOrNotReadOnly), d)
                 else
                   (let pendingKey = fmtApplyContextKey ''disk-dropping'' diskId
                    in ((False, None),
                        (if pendingEntries d pendingKey \<noteq> None
                         then d\<lparr>pendingEntries := (pendingEntries d)
                                  (pendingKey \<mapsto> Some ErrDiskAbnormalOrNotReadOnly)\<rparr>
                         else d))))
              else if \<not> isCommit then ((False, None), d)
              else
                (case addDroppingDisk (handler d) (pstore d) diskId of
                   Inl err \<Rightarrow> ((False, Some err), d)
                 | Inr p \<Rightarrow>
                     (let disk' = disk\<lparr>dropping := True\<rparr>;
                          d1 = d\<lparr>pstore := p, diskHeap := (diskHeap d)(dp := disk')\<rparr>
                      in case getNode d1 (NodeID (info disk')) of
                           Some np \<Rightarrow>
                             ((False, None),
                              d1\<lparr>topo := RemoveDiskFromDiskSet (topo d1)
                                    (nDiskType (ninfo (nodeHeap d1 np)))
                                    (nNodeSetID (ninfo (nodeHeap d1 np))) disk'\<rparr>)
                         | None \<Rightarrow> ((False, None), d1)))))"

text \<open>
  \<^verbatim>\<open>applyDroppedDisk\<close> calls \<^verbatim>\<open>SetStatus\<close> in commit mode and clears the dropping flag
  whatever \<^verbatim>\<open>SetStatus\<close> returned; the lookup before the flag is cleared ignores its
  flag, so an unknown id is a nil pointer dereference.
\<close>

definition applyDroppedDisk ::
  "'p manager \<Rightarrow> DiskID \<Rightarrow> (error option \<times> 'p manager) option" where
  "applyDroppedDisk d diskId =
     (case isDroppingDisk (handler d) (pstore d) diskId of
        Inl err \<Rightarrow> Some (Some (ErrInfo err ''diskMgr.droppedDisk get dropping disk failed''), d)
      | Inr exist \<Rightarrow>
          if \<not> exist then Some (None, d)
          else
            (case SetStatus d diskId DiskStatusDropped True of
               None \<Rightarrow> None
             | Some (err, d1) \<Rightarrow>
                 (let err' = map_option
                       (\<lambda>e. ErrInfo e ''diskMgr.droppedDisk set disk dropped status failed'') err
                  in case getDisk d1 diskId of
                       None \<Rightarrow> None
                     | Some dp \<Rightarrow>
                         Some (err', d1\<lparr>diskHeap := (diskHeap d1)
                                          (dp := (diskHeap d1 dp)\<lparr>dropping := False\<rparr>)\<rparr>))))"

section \<open>applyDroppingNode and applyDroppedNode\<close>

text \<open>
  The loop of \<^verbatim>\<open>applyDroppingNode\<close> over the copied disk pointers: \<open>Inl\<close> is an early
  return of the method, \<open>Inr\<close> the manager after the last disk.
\<close>

fun droppingNodeDisks ::
  "'p manager \<Rightarrow> NodeID \<Rightarrow> bool \<Rightarrow> (DiskID \<times> diskPtr) list \<Rightarrow>
     ((bool \<times> error option) \<times> 'p manager) + 'p manager" where
  "droppingNodeDisks d nodeId isCommit [] = Inr d"
| "droppingNodeDisks d nodeId isCommit ((k, dp) # rest) =
     (if Status (info (diskHeap d dp)) \<noteq> DiskStatusNormal
      then droppingNodeDisks d nodeId isCommit rest
      else
        (case applyDroppingDisk d (diskID (diskHeap d dp)) isCommit of
           ((already, None), d1) \<Rightarrow> droppingNodeDisks d1 nodeId isCommit rest
         | ((already, Some err), d1) \<Rightarrow>
             if \<not> isCommit then Inl ((False, Some err), d1)
             else
               (let pendingKey = fmtApplyContextKey ''node-dropping'' nodeId
                in Inl ((False, None),
                     (if pendingEntries d1 pendingKey \<noteq> None
                      then d1\<lparr>pendingEntries := (pendingEntries d1)(pendingKey \<mapsto> Some err)\<rparr>
                      else d1)))))"

definition applyDroppingNode ::
  "'p manager \<Rightarrow> NodeID \<Rightarrow> bool \<Rightarrow> (bool \<times> error option) \<times> 'p manager" where
  "applyDroppingNode d nodeId isCommit =
     (case getNode d nodeId of
        None \<Rightarrow> ((False, Some ErrCMNodeNotFound), d)
      | Some np \<Rightarrow>
          (let node = nodeHeap d np
           in if \<not> isUsingStatus node \<or> ndropping node then ((True, None), d)
              else
                (case droppingNodeDisks d nodeId isCommit (disks node) of
                   Inl r \<Rightarrow> r
                 | Inr d1 \<Rightarrow>
                     if \<not> isCommit then ((False, None), d1)
                     else
                       (case addDroppingNode (handler d1) (pstore d1) nodeId of
                          Inl err \<Rightarrow> ((False, Some err), d1)
                        | Inr p \<Rightarrow>
                            ((False, None),
                             d1\<lparr>pstore := p, nodeHeap := (nodeHeap d1)
                                   (np := (nodeHeap d1 np)\<lparr>ndropping := True\<rparr>)\<rparr>)))))"

text \<open>
  The disk check of \<^verbatim>\<open>applyDroppedNode\<close>: the error of the first disk that is still
  filterable, \<open>None\<close> when the loop ends without one.
\<close>

fun droppedNodeCheck :: "'p manager \<Rightarrow> (DiskID \<times> diskPtr) list \<Rightarrow> error option" where
  "droppedNodeCheck d [] = None"
| "droppedNodeCheck d ((k, dp) # rest) =
     (if needFilter (diskHeap d dp) then Some (ErrNew ''node has disk in use'')
      else droppedNodeCheck d rest)"

definition applyDroppedNode :: "'p manager \<Rightarrow> NodeID \<Rightarrow> error option \<times> 'p manager" where
  "applyDroppedNode d nodeId =
     (case isDroppingNode (handler d) (pstore d) nodeId of
        Inl err \<Rightarrow> (Some (ErrInfo err ''applyDroppedNode get dropping node failed''), d)
      | Inr exist \<Rightarrow>
          if \<not> exist then (None, d)
          else
            (case getNode d nodeId of
               None \<Rightarrow> (Some ErrCMNodeNotFound, d)
             | Some np \<Rightarrow>
                 (let node = nodeHeap d np
                  in case droppedNodeCheck d (disks node) of
                       Some err \<Rightarrow> (None, d)
                     | None \<Rightarrow>
                         (case droppedNode (handler d) (pstore d) (nodeID node) of
                            Inl err \<Rightarrow>
                              (Some (ErrInfo err ''diskMgr.droppedNode dropped node failed''), d)
                          | Inr p \<Rightarrow>
                              (let node' = node\<lparr>ninfo := (ninfo node)\<lparr>nStatus := NodeStatusDropped\<rparr>,
                                               ndropping := False\<rparr>
                               in (None,
                                   d\<lparr>pstore := p,
                                     nodeHeap := (nodeHeap d)(np := node'),
                                     topo := RemoveNodeFromNodeSet (topo d) node'\<rparr>))))))"

section \<open>CheckDiskInfoDuplicated\<close>

text \<open>
  The method only reads the manager, so the model returns the error alone. The disk it
  builds for the filter key has the node's host and the request's path.
\<close>

definition CheckDiskInfoDuplicated ::
  "'p manager \<Rightarrow> DiskID \<Rightarrow> diskItemInfo \<Rightarrow> nodeItemInfo \<Rightarrow> error option" where
  "CheckDiskInfoDuplicated d diskId diskInfo nodeInfo =
     (case getDisk d diskId of
        Some dp \<Rightarrow>
          (let di = diskHeap d dp
           in if NodeID (info di) = InvalidNodeID \<and> NodeID diskInfo \<noteq> InvalidNodeID \<and>
                 Host (info di) = nHost nodeInfo \<and> Idc (info di) = nIdc nodeInfo \<and>
                 Rack (info di) = nRack nodeInfo
              then None
              else Some ErrExist)
      | None \<Rightarrow>
          (let disk = \<lparr>diskID = 0,
                       info = \<lparr>Status = DiskStatusUnknown 0, Readonly = False, NodeID = 0,
                               Host = nHost nodeInfo, Path = Path diskInfo, Idc = [], Rack = [],
                               extraInfo = NoHeartbeatInfo\<rparr>,
                       dropping = False, expireTime = 0, lastExpireTime = 0\<rparr>
           in if hostPathFilter d (genFilterKey disk) \<noteq> None then Some ErrIllegalArguments
              else None))"

section \<open>GetHeartbeatChangeDisks\<close>

text \<open>
  Go's \<^verbatim>\<open>int64\<close> arithmetic on unbounded integers: \<open>wrap64\<close> is the wrap-around of
  \<open>+\<close>, \<open>-\<close> and \<open>*\<close>, \<open>sat64\<close> the saturation of \<^verbatim>\<open>time.Time.Sub\<close> (and so of
  \<^verbatim>\<open>time.Since\<close>), \<open>in64\<close> the range of the type. \<open>Second\<close> is \<^verbatim>\<open>time.Second\<close> in
  nanoseconds.
\<close>

definition in64 :: "int \<Rightarrow> bool" where
  "in64 x \<longleftrightarrow> - (2 ^ 63) \<le> x \<and> x < 2 ^ 63"

definition wrap64 :: "int \<Rightarrow> int" where
  "wrap64 x = (x + 2 ^ 63) mod 2 ^ 64 - 2 ^ 63"

definition sat64 :: "int \<Rightarrow> int" where
  "sat64 x = max (- (2 ^ 63)) (min (2 ^ 63 - 1) x)"

definition Second :: int where
  "Second = 1000000000"

record HeartbeatEvent =
  DiskID :: DiskID
  IsAlive :: bool

text \<open>
  \<^verbatim>\<open>getAllDisk\<close> copies the pointers of \<^verbatim>\<open>allDisks\<close> in the order the \<^verbatim>\<open>range\<close> loop
  visits the keys; that order is the argument \<open>order\<close>.
\<close>

definition getAllDisk :: "'p manager \<Rightarrow> DiskID list \<Rightarrow> diskPtr list" where
  "getAllDisk d order = List.map_filter (allDisks d) order"

text \<open>
  The loop of \<^verbatim>\<open>GetHeartbeatChangeDisks\<close>. \<^verbatim>\<open>diskItem.isExpire\<close> is not part of the
  sources at hand and the spec does not define it, so it is the parameter \<open>isExpire\<close>,
  a predicate of the clock and the disk; the clock is read once, as \<open>now\<close>.
\<close>

fun heartbeatLoop ::
  "(int \<Rightarrow> diskItem \<Rightarrow> bool) \<Rightarrow> 'p manager \<Rightarrow> int \<Rightarrow> diskPtr list \<Rightarrow> HeartbeatEvent list" where
  "heartbeatLoop isExpire d now [] = []"
| "heartbeatLoop isExpire d now (dp # rest) =
     (let disk = diskHeap d dp
      in if isExpire now disk \<and> needFilter disk then
           (if sat64 (now - expireTime disk) \<ge>
                 wrap64 (wrap64 (2 * HeartbeatExpireIntervalS (cfg d)) * Second)
            then heartbeatLoop isExpire d now rest
            else \<lparr>DiskID = diskID disk, IsAlive = False\<rparr> # heartbeatLoop isExpire d now rest)
         else if sat64 (expireTime disk - lastExpireTime disk) >
                 wrap64 (wrap64 (1 * HeartbeatExpireIntervalS (cfg d)) * Second)
         then \<lparr>DiskID = diskID disk, IsAlive = True\<rparr> # heartbeatLoop isExpire d now rest
         else heartbeatLoop isExpire d now rest)"

definition GetHeartbeatChangeDisks ::
  "(int \<Rightarrow> diskItem \<Rightarrow> bool) \<Rightarrow> 'p manager \<Rightarrow> int \<Rightarrow> DiskID list \<Rightarrow> HeartbeatEvent list" where
  "GetHeartbeatChangeDisks isExpire d now order =
     heartbeatLoop isExpire d now (getAllDisk d order)"

text \<open>Every registered disk carries the id it is registered under.\<close>

definition wellKeyed :: "'p manager \<Rightarrow> bool" where
  "wellKeyed d \<longleftrightarrow> (\<forall>k dp. allDisks d k = Some dp \<longrightarrow> diskID (diskHeap d dp) = k)"

text \<open>An expiry test for the examples: the clock has passed the disk's expire time.\<close>

definition expiredAt :: "int \<Rightarrow> diskItem \<Rightarrow> bool" where
  "expiredAt now disk \<longleftrightarrow> expireTime disk < now"

section \<open>AddDisk and the heartbeat\<close>

text \<open>
  Modelled from the spec: \<^verbatim>\<open>AddDisk\<close>, whose handler is not part of the sources at
  hand. The spec: it double-checks that the disk is new, checks \<open>host_path_filter\<close>,
  assigns the disk to a DiskSet within its node's NodeSet, persists it and registers it.
  The cell \<open>newPtr\<close> of the new disk and the DiskSet \<open>ds\<close> are arguments (Go allocates a
  fresh cell; the choice of the DiskSet belongs to the topology index). The dropping
  flag of a new disk is unset; its expire times are \<open>now\<close> plus the expire interval.
\<close>

definition applyAddDisk ::
  "'p manager \<Rightarrow> DiskID \<Rightarrow> diskItemInfo \<Rightarrow> diskPtr \<Rightarrow> DiskSetID \<Rightarrow> int \<Rightarrow>
     error option \<times> 'p manager" where
  "applyAddDisk d diskId diskInfo newPtr ds now =
     (if getDisk d diskId \<noteq> None then (None, d)
      else
        (let t = now + HeartbeatExpireIntervalS (cfg d) * Second;
             disk = \<lparr>diskID = diskId, info = diskInfo, dropping = False,
                     expireTime = t, lastExpireTime = t\<rparr>
         in if hostPathFilter d (genFilterKey disk) \<noteq> None then (Some ErrIllegalArguments, d)
            else
              (case addDiskNoLocked (handler d) (pstore d) disk of
                 Inl err \<Rightarrow> (Some err, d)
               | Inr p \<Rightarrow>
                   (let d1 = d\<lparr>pstore := p,
                               diskHeap := (diskHeap d)(newPtr := disk),
                               allDisks := (allDisks d)(diskId \<mapsto> newPtr),
                               hostPathFilter := (hostPathFilter d)(genFilterKey disk \<mapsto> DiskMark)\<rparr>
                    in case getNode d1 (NodeID diskInfo) of
                         None \<Rightarrow> (None, d1)
                       | Some np \<Rightarrow>
                           (let node = nodeHeap d1 np;
                                key = (nDiskType (ninfo node), nNodeSetID (ninfo node))
                            in (None,
                                d1\<lparr>nodeHeap := (nodeHeap d1)
                                      (np := node\<lparr>disks := disks node @ [(diskId, newPtr)]\<rparr>),
                                   topo := (topo d1)\<lparr>diskSets := (diskSets (topo d1))
                                      (key := (diskSets (topo d1) key)
                                         (ds := insert diskId (diskSets (topo d1) key ds)))\<rparr>\<rparr>))))))"

text \<open>
  Modelled from the spec: the heartbeat of a disk, whose handler is not part of the
  sources at hand. The spec: update \<open>extra\<close>, move \<open>last_expire_time \<leftarrow> expire_time\<close> and
  \<open>expire_time \<leftarrow> now + heartbeat_expire_interval\<close>.
\<close>

definition applyHeartBeatDiskInfo ::
  "'p manager \<Rightarrow> DiskID \<Rightarrow> heartbeatInfo \<Rightarrow> int \<Rightarrow> error option \<times> 'p manager" where
  "applyHeartBeatDiskInfo d diskId extra now =
     (case getDisk d diskId of
        None \<Rightarrow> (Some ErrCMDiskNotFound, d)
      | Some dp \<Rightarrow>
          (let disk = diskHeap d dp
           in (None,
               d\<lparr>diskHeap := (diskHeap d)
                    (dp := disk\<lparr>info := (info disk)\<lparr>extraInfo := extra\<rparr>,
                                lastExpireTime := expireTime disk,
                                expireTime := now + HeartbeatExpireIntervalS (cfg d) * Second\<rparr>)\<rparr>)))"

section \<open>Sequences of manager operations\<close>

datatype operation =
    OpAddDisk DiskID diskItemInfo diskPtr DiskSetID int
  | OpSetStatus DiskID DiskStatus bool
  | OpSwitchReadonly DiskID bool
  | OpDroppingDisk DiskID bool
  | OpDroppedDisk DiskID
  | OpDroppingNode NodeID bool
  | OpDroppedNode NodeID
  | OpHeartbeat DiskID heartbeatInfo int

text \<open>One operation on the manager; \<open>None\<close> when the operation panics.\<close>

fun step :: "'p manager \<Rightarrow> operation \<Rightarrow> 'p manager option" where
  "step d (OpAddDisk diskId diskInfo newPtr ds now) =
     Some (snd (applyAddDisk d diskId diskInfo newPtr ds now))"
| "step d (OpSetStatus diskId status isCommit) =
     map_option snd (SetStatus d diskId status isCommit)"
| "step d (OpSwitchReadonly diskId readonly) =
     map_option snd (applySwitchReadonly d diskId readonly)"
| "step d (OpDroppingDisk diskId isCommit) = Some (snd (applyDroppingDisk d diskId isCommit))"
| "step d (OpDroppedDisk diskId) = map_option snd (applyDroppedDisk d diskId)"
| "step d (OpDroppingNode nodeId isCommit) = Some (snd (applyDroppingNode d nodeId isCommit))"
| "step d (OpDroppedNode nodeId) = Some (snd (applyDroppedNode d nodeId))"
| "step d (OpHeartbeat diskId extra now) = Some (snd (applyHeartBeatDiskInfo d diskId extra now))"

fun run :: "'p manager \<Rightarrow> operation list \<Rightarrow> 'p manager option" where
  "run d [] = Some d"
| "run d (opn # ops) = (case step d opn of None \<Rightarrow> None | Some d1 \<Rightarrow> run d1 ops)"

text \<open>The property of claim C3: a disk whose status is \<open>Dropped\<close> is not dropping.\<close>

definition droppedNotDropping :: "'p manager \<Rightarrow> bool" where
  "droppedNotDropping d \<longleftrightarrow>
     (\<forall>dp. Status (info (diskHeap d dp)) = DiskStatusDropped \<longrightarrow> \<not> dropping (diskHeap d dp))"

text \<open>
  An operation is a direct drop when it is \<^verbatim>\<open>SetStatus\<close> to \<open>Dropped\<close> in commit mode on
  a registered disk that is dropping; a sequence is free of direct drops when none of
  its operations is one in the state it is applied to.
\<close>

fun directDrop :: "'p manager \<Rightarrow> operation \<Rightarrow> bool" where
  "directDrop d (OpSetStatus diskId status isCommit) =
     (status = DiskStatusDropped \<and> isCommit \<and>
      (case getDisk d diskId of None \<Rightarrow> False | Some dp \<Rightarrow> dropping (diskHeap d dp)))"
| "directDrop d opn = False"

fun directDropFree :: "'p manager \<Rightarrow> operation list \<Rightarrow> bool" where
  "directDropFree d [] = True"
| "directDropFree d (opn # ops) =
     (\<not> directDrop d opn \<and>
      (case step d opn of None \<Rightarrow> True | Some d1 \<Rightarrow> directDropFree d1 ops))"

section \<open>calculateWritable\<close>

text \<open>
  The fields of \<^verbatim>\<open>nodeAllocator\<close> that the estimator could read (it reads \<open>free\<close> only).
  The argument \<^verbatim>\<open>nodeStgs\<close>, a map from the IDC to its node allocators, is a list of
  pairs in the order the \<^verbatim>\<open>range\<close> loop visits the IDCs.
\<close>

record nodeAllocator =
  host :: string
  weight :: int
  free :: int

text \<open>
  Go's integer division truncates towards zero; a zero divisor panics, which the
  callers below write out. \<open>MaxInt64\<close> is \<^verbatim>\<open>math.MaxInt64\<close>.
\<close>

definition goDiv :: "int \<Rightarrow> int \<Rightarrow> int" where
  "goDiv a b = sgn a * sgn b * (\<bar>a\<bar> div \<bar>b\<bar>)"

definition MaxInt64 :: int where
  "MaxInt64 = 2 ^ 63 - 1"

text \<open>
  \<^verbatim>\<open>getMaxSuCount\<close>: the loop keeps the index of the first code mode with the largest
  \<open>N + M + L\<close> above zero; \<^verbatim>\<open>d.cfg.CodeModes[idx]\<close> panics on an empty list.
\<close>

fun maxSuLoop :: "(int \<times> int \<times> int) list \<Rightarrow> nat \<Rightarrow> nat \<Rightarrow> int \<Rightarrow> nat \<times> int" where
  "maxSuLoop [] i idx suCount = (idx, suCount)"
| "maxSuLoop ((N, M, L) # rest) i idx suCount =
     (if N + M + L > suCount then maxSuLoop rest (Suc i) i (N + M + L)
      else maxSuLoop rest (Suc i) idx suCount)"

definition getMaxSuCount :: "DiskMgrConfig \<Rightarrow> ((int \<times> int \<times> int) \<times> int) option" where
  "getMaxSuCount c =
     (case maxSuLoop (CodeModes c) 0 0 0 of
        (idx, suCount) \<Rightarrow>
          if idx < length (CodeModes c) then Some (CodeModes c ! idx, suCount) else None)"

text \<open>
  Modelled from the spec: the type \<^verbatim>\<open>maxHeap\<close>, whose declaration is not part of the
  sources at hand (the spec: a binary max-heap supporting push, pop and len). The heap
  is the list of its elements; \<open>heapPop\<close> takes a greatest element out.
\<close>

definition heapPop :: "int list \<Rightarrow> int \<times> int list" where
  "heapPop h = (Max (set h), remove1 (Max (set h)) h)"

definition heapPush :: "int list \<Rightarrow> int \<Rightarrow> int list" where
  "heapPush h x = x # h"

text \<open>
  The two inner loops of \<^verbatim>\<open>calIDCWritableFunc\<close>: \<open>popStripe\<close> pops \<open>idcSuCount\<close>
  elements into \<^verbatim>\<open>stripe\<close> (the loop guard has checked that the heap holds as many),
  \<open>pushStripe\<close> takes 10 off each and pushes back what is still positive. One round of
  the outer loop is \<open>stripeRound\<close>.
\<close>

fun popStripe :: "nat \<Rightarrow> int list \<Rightarrow> int list \<times> int list" where
  "popStripe 0 h = ([], h)"
| "popStripe (Suc i) h =
     (case heapPop h of
        (x, h1) \<Rightarrow> (case popStripe i h1 of (stripe, h2) \<Rightarrow> (x # stripe, h2)))"

fun pushStripe :: "int list \<Rightarrow> int list \<Rightarrow> int list" where
  "pushStripe [] h = h"
| "pushStripe (x # stripe) h =
     (if x - 10 > 0 then pushStripe stripe (heapPush h (x - 10)) else pushStripe stripe h)"

definition stripeRound :: "nat \<Rightarrow> int list \<Rightarrow> int list" where
  "stripeRound k lefts = (case popStripe k lefts of (stripe, rest) \<Rightarrow> pushStripe stripe rest)"

text \<open>
  The outer loop \<^verbatim>\<open>for { ... }\<close>, with the counter \<open>n\<close>. It need not end: with
  \<open>idcSuCount = 0\<close> the guard never holds and nothing is popped. Not returning is the
  value \<open>None\<close>.
\<close>

partial_function (option) stripeLoop :: "nat \<Rightarrow> int list \<Rightarrow> int \<Rightarrow> int option" where
  "stripeLoop k lefts n =
     (if length lefts < k then Some n
      else stripeLoop k (stripeRound k lefts) (wrap64 (n + 10)))"

text \<open>
  The first loop of \<^verbatim>\<open>calIDCWritableFunc\<close> appends the positive counts
  \<^verbatim>\<open>v.free / itemSize\<close>; \<^verbatim>\<open>make([]int64, idcSuCount)\<close> panics on a negative length.
  \<open>minStripeLoop\<close> is the loop over the IDCs of \<^verbatim>\<open>nodeStgs\<close> in host-aware mode,
  \<open>sumChunkNum\<close> and \<open>minChunkLoop\<close> are the loops of the other mode.
\<close>

fun loadLefts :: "int \<Rightarrow> nodeAllocator list \<Rightarrow> int list \<Rightarrow> int list option" where
  "loadLefts itemSize [] lefts = Some lefts"
| "loadLefts itemSize (v # stgs) lefts =
     (if itemSize = 0 then None
      else
        (let count = wrap64 (goDiv (free v) itemSize)
         in loadLefts itemSize stgs (if count > 0 then lefts @ [count] else lefts)))"

definition calIDCWritableFunc :: "int \<Rightarrow> int \<Rightarrow> nodeAllocator list \<Rightarrow> int option" where
  "calIDCWritableFunc idcSuCount itemSize stgs =
     (if idcSuCount < 0 then None
      else
        (case loadLefts itemSize stgs [] of
           None \<Rightarrow> None
         | Some lefts \<Rightarrow> stripeLoop (nat idcSuCount) lefts 0))"

fun minStripeLoop ::
  "int \<Rightarrow> int \<Rightarrow> (string \<times> nodeAllocator list) list \<Rightarrow> int \<Rightarrow> int option" where
  "minStripeLoop idcSuCount itemSize [] minimumStripeCount = Some minimumStripeCount"
| "minStripeLoop idcSuCount itemSize ((idc, stgs) # rest) minimumStripeCount =
     (case calIDCWritableFunc idcSuCount itemSize stgs of
        None \<Rightarrow> None
      | Some n \<Rightarrow>
          minStripeLoop idcSuCount itemSize rest
            (if n < minimumStripeCount then n else minimumStripeCount))"

fun sumChunkNum :: "int \<Rightarrow> nodeAllocator list \<Rightarrow> int \<Rightarrow> int option" where
  "sumChunkNum itemSize [] idcChunkNum = Some idcChunkNum"
| "sumChunkNum itemSize (v # stgs) idcChunkNum =
     (if itemSize = 0 then None
      else sumChunkNum itemSize stgs (wrap64 (idcChunkNum + wrap64 (goDiv (free v) itemSize))))"

fun minChunkLoop :: "int \<Rightarrow> (string \<times> nodeAllocator list) list \<Rightarrow> int \<Rightarrow> int option" where
  "minChunkLoop itemSize [] minimumChunkNum = Some minimumChunkNum"
| "minChunkLoop itemSize ((idc, stgs) # rest) minimumChunkNum =
     (case sumChunkNum itemSize stgs 0 of
        None \<Rightarrow> None
      | Some idcChunkNum \<Rightarrow>
          minChunkLoop itemSize rest
            (if idcChunkNum < minimumChunkNum then idcChunkNum else minimumChunkNum))"

definition calculateWritable ::
  "DiskMgrConfig \<Rightarrow> (string \<times> nodeAllocator list) list \<Rightarrow> int option" where
  "calculateWritable c nodeStgs =
     (case getMaxSuCount c of
        None \<Rightarrow> None
      | Some ((N, M, L), suCount) \<Rightarrow>
          if length (IDC c) = 0 then None
          else
            (let idcSuCount = goDiv suCount (int (length (IDC c)));
                 itemSize = (if ShardSize c \<noteq> 0 then ShardSize c else ChunkSize c)
             in if HostAware c \<and> length nodeStgs > 0 then
                  (case minStripeLoop idcSuCount itemSize nodeStgs MaxInt64 of
                     None \<Rightarrow> None
                   | Some minimumStripeCount \<Rightarrow>
                       Some (wrap64 (wrap64 (minimumStripeCount * N) * itemSize)))
                else if length nodeStgs > 0 then
                  (case minChunkLoop itemSize nodeStgs MaxInt64 of
                     None \<Rightarrow> None
                   | Some minimumChunkNum \<Rightarrow>
                       if idcSuCount = 0 then None
                       else Some (wrap64 (wrap64 (wrap64 (goDiv minimumChunkNum idcSuCount) * N)
                                   * itemSize)))
                else Some 0))"

subsection \<open>The estimator in the words of the spec\<close>

text \<open>
  The spec's host-aware estimator, for comparison with the code: the tokens of an IDC
  are its nodes' \<open>free / item_size\<close> (a node with no token adds none); while at least
  \<open>idc_su_count\<close> tokens remain, the top \<open>idc_su_count\<close> tokens are popped, \<open>min(10, popped)\<close>
  is taken off each, the positive remainders are pushed back, and the round counts for
  10 stripes. For \<open>idc_su_count = 0\<close> the words describe a loop without end; the
  definition gives 0 there and the theorems take \<open>idc_su_count \<ge> 1\<close>.
\<close>

fun specPush :: "int list \<Rightarrow> int list \<Rightarrow> int list" where
  "specPush [] h = h"
| "specPush (x # popped) h =
     (if x - min 10 x > 0 then specPush popped (heapPush h (x - min 10 x))
      else specPush popped h)"

definition specRound :: "nat \<Rightarrow> int list \<Rightarrow> int list" where
  "specRound k tokens = (case popStripe k tokens of (popped, rest) \<Rightarrow> specPush popped rest)"

definition tokenMeasure :: "int list \<Rightarrow> nat" where
  "tokenMeasure xs = sum_list (map (\<lambda>x. nat x + 1) xs)"

lemma tokenMeasure_simps [simp]:
  "tokenMeasure [] = 0" "tokenMeasure (x # xs) = nat x + 1 + tokenMeasure xs"
  by (simp_all add: tokenMeasure_def)

lemma tokenMeasure_remove1:
  "x \<in> set h \<Longrightarrow> tokenMeasure h = nat x + 1 + tokenMeasure (remove1 x h)"
  unfolding tokenMeasure_def by (simp add: sum_list_map_remove1)

lemma heapPop_measure:
  assumes "h \<noteq> []" and "heapPop h = (x, h1)"
  shows "tokenMeasure h = nat x + 1 + tokenMeasure h1 \<and> Suc (length h1) = length h"
proof -
  from assms(1) have m: "Max (set h) \<in> set h" by simp
  from assms(2) have x: "x = Max (set h)" and h1: "h1 = remove1 (Max (set h)) h"
    by (auto simp add: heapPop_def)
  from assms(1) have "0 < length h" by simp
  with m tokenMeasure_remove1 [OF m] show ?thesis
    unfolding x h1 by (simp add: length_remove1)
qed

lemma popStripe_measure:
  "i \<le> length h \<Longrightarrow> popStripe i h = (stripe, rest) \<Longrightarrow>
     tokenMeasure h = tokenMeasure stripe + tokenMeasure rest \<and> length stripe = i \<and>
     length rest + i = length h"
proof (induction i arbitrary: h stripe rest)
  case 0
  then show ?case by simp
next
  case (Suc i)
  obtain x h1 where p: "heapPop h = (x, h1)" by (cases "heapPop h")
  obtain s2 r2 where q: "popStripe i h1 = (s2, r2)" by (cases "popStripe i h1")
  from Suc.prems(1) have ne: "h \<noteq> []" by auto
  note hm = heapPop_measure [OF ne p]
  with Suc.prems(1) have "i \<le> length h1" by simp
  from Suc.IH [OF this q] hm Suc.prems(2) p q show ?case by auto
qed

lemma specPush_measure:
  "tokenMeasure (specPush popped h) + length popped \<le> tokenMeasure h + tokenMeasure popped"
proof (induction popped arbitrary: h)
  case Nil
  then show ?case by simp
next
  case (Cons x popped)
  show ?case
  proof (cases "x - min 10 x > 0")
    case True
    then have x: "10 < x" and m: "min 10 x = 10" by (auto simp add: min_def split: if_splits)
    then have "nat (x - 10) + 1 \<le> nat x" by simp
    with Cons [of "heapPush h (x - 10)"] x m show ?thesis
      by (simp add: heapPush_def)
  next
    case False
    with Cons [of h] show ?thesis by simp
  qed
qed

lemma specRound_measure:
  assumes "0 < k" and "k \<le> length tokens"
  shows "tokenMeasure (specRound k tokens) < tokenMeasure tokens"
proof -
  obtain popped rest where p: "popStripe k tokens = (popped, rest)"
    by (cases "popStripe k tokens")
  note m = popStripe_measure [OF assms(2) p]
  from specPush_measure [of popped rest] m assms(1) show ?thesis
    by (simp add: specRound_def p)
qed

function specStripeCount :: "nat \<Rightarrow> int list \<Rightarrow> int" where
  "specStripeCount k tokens =
     (if k = 0 \<or> length tokens < k then 0
      else 10 + specStripeCount k (specRound k tokens))"
  by pat_completeness auto
termination
  by (relation "measure (\<lambda>(k, tokens). tokenMeasure tokens)") (auto simp add: specRound_measure)

declare specStripeCount.simps [simp del]

definition specTokens :: "int \<Rightarrow> nodeAllocator list \<Rightarrow> int list" where
  "specTokens itemSize stgs = filter (\<lambda>t. t > 0) (map (\<lambda>v. free v div itemSize) stgs)"

definition specIdcStripes :: "nat \<Rightarrow> int \<Rightarrow> string \<times> nodeAllocator list \<Rightarrow> int" where
  "specIdcStripes k itemSize e = specStripeCount k (specTokens itemSize (snd e))"

text \<open>
  The stripe count the spec's words give when the minimum runs over all configured
  IDCs, an IDC without an entry in \<^verbatim>\<open>nodeStgs\<close> having no nodes.
\<close>

definition specConfiguredStripes ::
  "DiskMgrConfig \<Rightarrow> nat \<Rightarrow> int \<Rightarrow> (string \<times> nodeAllocator list) list \<Rightarrow> int" where
  "specConfiguredStripes c k itemSize nodeStgs =
     Min ((\<lambda>idc. specStripeCount k (specTokens itemSize
             (case map_of nodeStgs idc of None \<Rightarrow> [] | Some stgs \<Rightarrow> stgs))) ` set (IDC c))"

section \<open>A concrete manager\<close>

text \<open>
  Modelled from the spec: an in-memory persistence collaborator whose store is the
  pair of the dropping-disk list and the dropping-node list, and whose writes succeed;
  \<open>failHandler\<close> is the collaborator whose writes and queries all fail. The manager
  \<open>exMgr st dr ro\<close> is the spec's first scenario: node 1 on host \<open>h1\<close> with the disk 10
  at \<open>/d1\<close>, the disk having status \<open>st\<close>, dropping flag \<open>dr\<close> and readonly bit \<open>ro\<close>;
  its heartbeat expires 100 seconds after the epoch.
\<close>

definition memHandler :: "(nat set \<times> nat set) persistentHandler" where
  "memHandler =
     \<lparr>updateDiskNoLocked = (\<lambda>p di. Inr p),
      updateDiskStatusNoLocked = (\<lambda>p i s. Inr p),
      addDiskNoLocked = (\<lambda>p di. Inr p),
      updateNodeNoLocked = (\<lambda>p ni. Inr p),
      addDroppingDisk = (\<lambda>p i. Inr (insert i (fst p), snd p)),
      addDroppingNode = (\<lambda>p i. Inr (fst p, insert i (snd p))),
      isDroppingDisk = (\<lambda>p i. Inr (i \<in> fst p)),
      isDroppingNode = (\<lambda>p i. Inr (i \<in> snd p)),
      droppedDisk = (\<lambda>p i. Inr (fst p - {i}, snd p)),
      droppedNode = (\<lambda>p i. Inr (fst p, snd p - {i}))\<rparr>"

definition failHandler :: "(nat set \<times> nat set) persistentHandler" where
  "failHandler =
     \<lparr>updateDiskNoLocked = (\<lambda>p di. Inl (ErrPersistence 1)),
      updateDiskStatusNoLocked = (\<lambda>p i s. Inl (ErrPersistence 1)),
      addDiskNoLocked = (\<lambda>p di. Inl (ErrPersistence 1)),
      updateNodeNoLocked = (\<lambda>p ni. Inl (ErrPersistence 1)),
      addDroppingDisk = (\<lambda>p i. Inl (ErrPersistence 1)),
      addDroppingNode = (\<lambda>p i. Inl (ErrPersistence 1)),
      isDroppingDisk = (\<lambda>p i. Inl (ErrPersistence 1)),
      isDroppingNode = (\<lambda>p i. Inl (ErrPersistence 1)),
      droppedDisk = (\<lambda>p i. Inl (ErrPersistence 1)),
      droppedNode = (\<lambda>p i. Inl (ErrPersistence 1))\<rparr>"

definition exDisk :: "DiskStatus \<Rightarrow> bool \<Rightarrow> bool \<Rightarrow> diskItem" where
  "exDisk st dr ro =
     \<lparr>diskID = 10,
      info = \<lparr>Status = st, Readonly = ro, NodeID = 1, Host = ''h1'', Path = ''/d1'',
              Idc = ''z0'', Rack = ''r1'', extraInfo = NoHeartbeatInfo\<rparr>,
      dropping = dr, expireTime = 100 * Second, lastExpireTime = 100 * Second\<rparr>"

definition exNode :: nodeItem where
  "exNode =
     \<lparr>nodeID = 1,
      ninfo = \<lparr>nStatus = NodeStatusNormal, nHost = ''h1'', nIdc = ''z0'', nRack = ''r1'',
               nDiskType = 1, nNodeSetID = 1\<rparr>,
      ndropping = False, disks = [(10, 0)]\<rparr>"

definition exTopo :: topoMgr where
  "exTopo =
     \<lparr>nodeSets = (\<lambda>k. if k = (1, 1) then {1} else {}),
      diskSets = (\<lambda>k ds. if k = (1, 1) \<and> ds = 1 then {10} else {})\<rparr>"

definition exCfg :: DiskMgrConfig where
  "exCfg =
     \<lparr>HostAware = True, HeartbeatExpireIntervalS = 60, IDC = [''z0'', ''z1'', ''z2''],
      CodeModes = [(6, 6, 0)], ChunkSize = 16, ShardSize = 0\<rparr>"

definition exMgr :: "DiskStatus \<Rightarrow> bool \<Rightarrow> bool \<Rightarrow> (nat set \<times> nat set) manager" where
  "exMgr st dr ro =
     \<lparr>diskHeap = (\<lambda>p. exDisk st dr ro),
      nodeHeap = (\<lambda>p. exNode),
      allDisks = [10 \<mapsto> 0],
      allNodes = [1 \<mapsto> 0],
      topo = exTopo,
      hostPathFilter = [DiskKey ''h1'' ''/d1'' \<mapsto> DiskMark, NodeKey ''h1'' 1 \<mapsto> NodeVal 1],
      pendingEntries = Map.empty,
      handler = memHandler,
      pstore = (if dr then {10} else {}, {}),
      cfg = exCfg\<rparr>"

text \<open>
  \<open>exLegacyMgr\<close> holds disk 10 as a legacy disk (its node id is \<open>InvalidNodeID\<close>);
  \<open>exFailMgr\<close> has the failing persistence collaborator; in \<open>exNodeMgr st\<close> node 1 is
  dropping and is recorded in the dropping-node list, its disk having status \<open>st\<close>.
\<close>

definition exLegacyMgr :: "(nat set \<times> nat set) manager" where
  "exLegacyMgr =
     (exMgr DiskStatusNormal False False)
       \<lparr>diskHeap := (\<lambda>p. (exDisk DiskStatusNormal False False)
          \<lparr>info := (info (exDisk DiskStatusNormal False False))\<lparr>NodeID := InvalidNodeID\<rparr>\<rparr>)\<rparr>"

definition exFailMgr :: "DiskStatus \<Rightarrow> bool \<Rightarrow> bool \<Rightarrow> (nat set \<times> nat set) manager" where
  "exFailMgr st dr ro = (exMgr st dr ro)\<lparr>handler := failHandler\<rparr>"

definition exNodeMgr :: "DiskStatus \<Rightarrow> (nat set \<times> nat set) manager" where
  "exNodeMgr st =
     (exMgr st False True)\<lparr>nodeHeap := (\<lambda>p. exNode\<lparr>ndropping := True\<rparr>), pstore := ({}, {1})\<rparr>"

definition exDiskInfo :: "NodeID \<Rightarrow> string \<Rightarrow> diskItemInfo" where
  "exDiskInfo n p =
     \<lparr>Status = DiskStatusNormal, Readonly = False, NodeID = n, Host = ''h1'', Path = p,
      Idc = ''z0'', Rack = ''r1'', extraInfo = NoHeartbeatInfo\<rparr>"

text \<open>
  Two sequences on the example manager: the spec's first scenario (switch to readonly,
  dropping, dropped), and the same with \<^verbatim>\<open>SetStatus\<close> to \<open>Dropped\<close> in place of the
  last step.
\<close>

definition exScenario :: "operation list" where
  "exScenario = [OpSwitchReadonly 10 True, OpDroppingDisk 10 True, OpDroppedDisk 10]"

definition exDirectDrop :: "operation list" where
  "exDirectDrop =
     [OpSwitchReadonly 10 True, OpDroppingDisk 10 True, OpSetStatus 10 DiskStatusDropped True]"

text \<open>
  The spec's sixth scenario: four hosts per IDC, each with \<open>free = 10 * item_size\<close>
  (\<open>item_size = 16\<close> in \<open>exCfg\<close>), in three IDCs; and the same with allocatable hosts in
  the IDC \<open>z0\<close> only.
\<close>

definition exHosts :: "nodeAllocator list" where
  "exHosts =
     [\<lparr>host = ''h1'', weight = 10, free = 160\<rparr>, \<lparr>host = ''h2'', weight = 10, free = 160\<rparr>,
      \<lparr>host = ''h3'', weight = 10, free = 160\<rparr>, \<lparr>host = ''h4'', weight = 10, free = 160\<rparr>]"

definition exThreeIdc :: "(string \<times> nodeAllocator list) list" where
  "exThreeIdc = [(''z0'', exHosts), (''z1'', exHosts), (''z2'', exHosts)]"

definition exOneIdc :: "(string \<times> nodeAllocator list) list" where
  "exOneIdc = [(''z0'', exHosts)]"

section \<open>The status ladder in pre-check mode\<close>

lemma SetStatus_precheck_result:
  assumes "getDisk d diskId = Some dp" and "validSetStatus status = Some afterSeq"
  shows "SetStatus d diskId status False =
           (case SetStatusCheck (diskHeap d dp) status afterSeq False of
              None \<Rightarrow> None
            | Some None \<Rightarrow> Some (None, d)
            | Some (Some err) \<Rightarrow> Some (Some err, d))"
  using assms by (simp add: SetStatus_def split: option.splits)

text \<open>
  Claim C1. For a registered disk whose status and the requested status both have an
  ordinal in the table \<open>Normal = 0, Broken = 1, Repairing = 2, Repaired = 3, Dropped = 4\<close>:
  if the statuses differ and the disk is not dropping, the pre-check
  (\<open>isCommit = False\<close>) returns \<open>ErrChangeDiskStatusNotAllow\<close> exactly when
  \<open>before > after\<close> or \<open>after - before > 1\<close> with a target other than \<open>Dropped\<close>, and
  returns nil otherwise; a request for \<open>Dropped\<close> is always accepted; and if the
  statuses differ and the disk is dropping, every target other than \<open>Dropped\<close> is
  rejected with \<open>ErrChangeDiskStatusNotAllow\<close>. The pre-check never changes the manager.
\<close>

theorem SetStatus_precheck_ladder:
  assumes "getDisk d diskId = Some dp"
    and "validSetStatus (Status (info (diskHeap d dp))) = Some beforeSeq"
    and "validSetStatus status = Some afterSeq"
  shows "(validSetStatus DiskStatusNormal = Some 0 \<and> validSetStatus DiskStatusBroken = Some 1 \<and>
          validSetStatus DiskStatusRepairing = Some 2 \<and> validSetStatus DiskStatusRepaired = Some 3 \<and>
          validSetStatus DiskStatusDropped = Some 4) \<and>
         (Status (info (diskHeap d dp)) \<noteq> status \<and> \<not> dropping (diskHeap d dp) \<longrightarrow>
            ((SetStatus d diskId status False = Some (Some ErrChangeDiskStatusNotAllow, d)) =
               (beforeSeq > afterSeq \<or> (afterSeq - beforeSeq > 1 \<and> status \<noteq> DiskStatusDropped))) \<and>
            ((SetStatus d diskId status False = Some (None, d)) =
               (\<not> (beforeSeq > afterSeq \<or> (afterSeq - beforeSeq > 1 \<and> status \<noteq> DiskStatusDropped))))) \<and>
         (status = DiskStatusDropped \<longrightarrow> SetStatus d diskId status False = Some (None, d)) \<and>
         (Status (info (diskHeap d dp)) \<noteq> status \<and> dropping (diskHeap d dp) \<and>
            status \<noteq> DiskStatusDropped \<longrightarrow>
            SetStatus d diskId status False = Some (Some ErrChangeDiskStatusNotAllow, d))"
proof -
  have res: "SetStatus d diskId status False =
           (case SetStatusCheck (diskHeap d dp) status afterSeq False of
              None \<Rightarrow> None
            | Some None \<Rightarrow> Some (None, d)
            | Some (Some err) \<Rightarrow> Some (Some err, d))"
    using assms(1,3) by (rule SetStatus_precheck_result)
  have le4: "beforeSeq \<le> 4"
    using assms(2) by (cases "Status (info (diskHeap d dp))") auto
  show ?thesis
    using assms(2,3) le4 unfolding res by (auto simp: SetStatusCheck_def)
qed

theorem SetStatus_precheck_ladder_witness:
  "SetStatus (exMgr DiskStatusRepairing False False) 10 DiskStatusNormal False =
     Some (Some ErrChangeDiskStatusNotAllow, exMgr DiskStatusRepairing False False) \<and>
   SetStatus (exMgr DiskStatusNormal False False) 10 DiskStatusRepairing False =
     Some (Some ErrChangeDiskStatusNotAllow, exMgr DiskStatusNormal False False) \<and>
   SetStatus (exMgr DiskStatusNormal False False) 10 DiskStatusBroken False =
     Some (None, exMgr DiskStatusNormal False False) \<and>
   SetStatus (exMgr DiskStatusNormal False False) 10 DiskStatusDropped False =
     Some (None, exMgr DiskStatusNormal False False) \<and>
   SetStatus (exMgr DiskStatusNormal True True) 10 DiskStatusBroken False =
     Some (Some ErrChangeDiskStatusNotAllow, exMgr DiskStatusNormal True True)"
proof -
  have g: "\<And>st dr ro. getDisk (exMgr st dr ro) 10 = Some 0"
    by (simp add: getDisk_def exMgr_def)
  have s: "\<And>st dr ro. Status (info (diskHeap (exMgr st dr ro) 0)) = st"
    "\<And>st dr ro. dropping (diskHeap (exMgr st dr ro) 0) = dr"
    by (simp_all add: exMgr_def exDisk_def)
  show ?thesis
    using SetStatus_precheck_ladder [OF g, of DiskStatusRepairing False False 2 DiskStatusNormal 0]
      SetStatus_precheck_ladder [OF g, of DiskStatusNormal False False 0 DiskStatusRepairing 2]
      SetStatus_precheck_ladder [OF g, of DiskStatusNormal False False 0 DiskStatusBroken 1]
      SetStatus_precheck_ladder [OF g, of DiskStatusNormal False False 0 DiskStatusDropped 4]
      SetStatus_precheck_ladder [OF g, of DiskStatusNormal True True 0 DiskStatusBroken 1]
    by (simp add: s)
qed

section \<open>The status ladder in commit mode\<close>

text \<open>
  Claim C5 (the code at three ladder-violating requests in commit mode). A
  \<^verbatim>\<open>return nil\<close> inside the first closure of \<^verbatim>\<open>SetStatus\<close> ends the closure only, so
  the method goes on to the write: a backward step \<open>Repairing \<rightarrow> Normal\<close> sets the status
  to \<open>Normal\<close>; a non-adjacent step \<open>Normal \<rightarrow> Repaired\<close> sets the status to \<open>Repaired\<close>,
  deletes the host/path entry and takes the disk out of its DiskSet; and \<open>Broken\<close>
  requested for a dropping disk sets the status to \<open>Broken\<close>. Each call returns nil.
\<close>

theorem SetStatus_commit_applies_violation:
  "SetStatus (exMgr DiskStatusRepairing False False) 10 DiskStatusNormal True \<noteq> None \<and>
   fst (the (SetStatus (exMgr DiskStatusRepairing False False) 10 DiskStatusNormal True)) = None \<and>
   Status (info (diskHeap
     (snd (the (SetStatus (exMgr DiskStatusRepairing False False) 10 DiskStatusNormal True))) 0)) =
     DiskStatusNormal \<and>
   fst (the (SetStatus (exMgr DiskStatusNormal False False) 10 DiskStatusRepaired True)) = None \<and>
   Status (info (diskHeap
     (snd (the (SetStatus (exMgr DiskStatusNormal False False) 10 DiskStatusRepaired True))) 0)) =
     DiskStatusRepaired \<and>
   hostPathFilter (exMgr DiskStatusNormal False False) (DiskKey ''h1'' ''/d1'') = Some DiskMark \<and>
   hostPathFilter
     (snd (the (SetStatus (exMgr DiskStatusNormal False False) 10 DiskStatusRepaired True)))
     (DiskKey ''h1'' ''/d1'') = None \<and>
   10 \<in> diskSets (topo (exMgr DiskStatusNormal False False)) (1, 1) 1 \<and>
   10 \<notin> diskSets (topo
     (snd (the (SetStatus (exMgr DiskStatusNormal False False) 10 DiskStatusRepaired True)))) (1, 1) 1 \<and>
   fst (the (SetStatus (exMgr DiskStatusNormal True True) 10 DiskStatusBroken True)) = None \<and>
   Status (info (diskHeap
     (snd (the (SetStatus (exMgr DiskStatusNormal True True) 10 DiskStatusBroken True))) 0)) =
     DiskStatusBroken"
  by (simp add: SetStatus_def SetStatusCheck_def SetStatusApply_def getDisk_def getNode_def
      exMgr_def exDisk_def exNode_def exTopo_def memHandler_def needFilter_def genFilterKey_def
      RemoveDiskFromDiskSet_def Let_def)

section \<open>Dropping a disk\<close>

text \<open>
  Claim C6. For a registered disk: if it is already dropping, \<open>applyDroppingDisk\<close>
  returns \<open>(True, nil)\<close> and changes nothing, in either mode; otherwise, if its status
  is not \<open>Normal\<close> or it is not readonly, the pre-check returns
  \<open>ErrDiskAbnormalOrNotReadOnly\<close> and changes nothing; otherwise, in commit mode with
  the dropping-list entry persisted, it returns \<open>(False, nil)\<close>, the store is the one the
  collaborator returned, the disk's dropping flag is set, and the disk is in no DiskSet
  of its node's NodeSet (a disk whose node is unknown leaves the topology as it was).
  Nothing else of the manager changes.
\<close>

theorem applyDroppingDisk_cases:
  assumes "getDisk d diskId = Some dp"
  shows "(dropping (diskHeap d dp) \<longrightarrow> applyDroppingDisk d diskId isCommit = ((True, None), d)) \<and>
         (\<not> dropping (diskHeap d dp) \<and>
            (Status (info (diskHeap d dp)) \<noteq> DiskStatusNormal \<or> \<not> Readonly (info (diskHeap d dp))) \<longrightarrow>
            applyDroppingDisk d diskId False = ((False, Some ErrDiskAbnormalOrNotReadOnly), d)) \<and>
         (\<not> dropping (diskHeap d dp) \<and> Status (info (diskHeap d dp)) = DiskStatusNormal \<and>
            Readonly (info (diskHeap d dp)) \<and>
            addDroppingDisk (handler d) (pstore d) diskId = Inr p \<longrightarrow>
            (\<exists>d'. applyDroppingDisk d diskId True = ((False, None), d') \<and>
                  pstore d' = p \<and>
                  diskHeap d' = (diskHeap d)(dp := (diskHeap d dp)\<lparr>dropping := True\<rparr>) \<and>
                  dropping (diskHeap d' dp) \<and>
                  (case getNode d (NodeID (info (diskHeap d dp))) of
                     Some np \<Rightarrow>
                       topo d' = RemoveDiskFromDiskSet (topo d) (nDiskType (ninfo (nodeHeap d np)))
                         (nNodeSetID (ninfo (nodeHeap d np))) (diskHeap d' dp) \<and>
                       (\<forall>ds. diskID (diskHeap d dp) \<notin>
                          diskSets (topo d') (nDiskType (ninfo (nodeHeap d np)),
                                              nNodeSetID (ninfo (nodeHeap d np))) ds)
                   | None \<Rightarrow> topo d' = topo d) \<and>
                  allDisks d' = allDisks d \<and> allNodes d' = allNodes d \<and> nodeHeap d' = nodeHeap d \<and>
                  hostPathFilter d' = hostPathFilter d \<and> pendingEntries d' = pendingEntries d))"
  using assms
  by (auto simp add: applyDroppingDisk_def Let_def getNode_def RemoveDiskFromDiskSet_def
      split: option.splits)

theorem applyDroppingDisk_cases_witness:
  "applyDroppingDisk (exMgr DiskStatusNormal True True) 10 True =
     ((True, None), exMgr DiskStatusNormal True True) \<and>
   applyDroppingDisk (exMgr DiskStatusNormal False False) 10 False =
     ((False, Some ErrDiskAbnormalOrNotReadOnly), exMgr DiskStatusNormal False False) \<and>
   fst (applyDroppingDisk (exMgr DiskStatusNormal False True) 10 True) = (False, None) \<and>
   pstore (snd (applyDroppingDisk (exMgr DiskStatusNormal False True) 10 True)) = ({10}, {}) \<and>
   dropping (diskHeap (snd (applyDroppingDisk (exMgr DiskStatusNormal False True) 10 True)) 0) \<and>
   10 \<notin> diskSets (topo (snd (applyDroppingDisk (exMgr DiskStatusNormal False True) 10 True))) (1, 1) 1"
proof -
  have g: "\<And>st dr ro. getDisk (exMgr st dr ro) 10 = Some 0"
    by (simp add: getDisk_def exMgr_def)
  have s: "\<And>st dr ro. diskHeap (exMgr st dr ro) 0 = exDisk st dr ro"
    "\<And>st dr ro. getNode (exMgr st dr ro) (Suc 0) = Some 0"
    "\<And>st dr ro. nodeHeap (exMgr st dr ro) 0 = exNode"
    "addDroppingDisk (handler (exMgr DiskStatusNormal False True))
       (pstore (exMgr DiskStatusNormal False True)) 10 = Inr ({10}, {})"
    by (simp_all add: exMgr_def getNode_def memHandler_def)
  show ?thesis
    using applyDroppingDisk_cases [OF g, of DiskStatusNormal True True True]
      applyDroppingDisk_cases [OF g, of DiskStatusNormal False False]
      applyDroppingDisk_cases [OF g, of DiskStatusNormal False True _ "({10}, {})"]
    by (auto simp add: s exDisk_def exNode_def)
qed

section \<open>Registering a disk twice\<close>

text \<open>
  Claim C7. If the disk id is registered, \<open>CheckDiskInfoDuplicated\<close> returns nil when
  the registered disk has the node id \<open>InvalidNodeID\<close>, the request carries another node
  id and the registered disk's host, idc and rack are the node's; it returns \<open>ErrExist\<close>
  otherwise. If the disk id is new, it returns \<open>ErrIllegalArguments\<close> when the key of
  the node's host and the request's path is in \<open>hostPathFilter\<close>, and nil otherwise. The
  method reads the manager only.
\<close>

theorem CheckDiskInfoDuplicated_cases:
  "(\<forall>dp. getDisk d diskId = Some dp \<longrightarrow>
      CheckDiskInfoDuplicated d diskId diskInfo nodeInfo =
        (if NodeID (info (diskHeap d dp)) = InvalidNodeID \<and> NodeID diskInfo \<noteq> InvalidNodeID \<and>
            (Host (info (diskHeap d dp)), Idc (info (diskHeap d dp)), Rack (info (diskHeap d dp))) =
              (nHost nodeInfo, nIdc nodeInfo, nRack nodeInfo)
         then None else Some ErrExist)) \<and>
   (getDisk d diskId = None \<longrightarrow>
      CheckDiskInfoDuplicated d diskId diskInfo nodeInfo =
        (if hostPathFilter d (DiskKey (nHost nodeInfo) (Path diskInfo)) \<noteq> None
         then Some ErrIllegalArguments else None))"
  by (simp add: CheckDiskInfoDuplicated_def genFilterKey_def Let_def)

theorem CheckDiskInfoDuplicated_cases_witness:
  "CheckDiskInfoDuplicated exLegacyMgr 10 (exDiskInfo 1 ''/d1'') (ninfo exNode) = None \<and>
   CheckDiskInfoDuplicated (exMgr DiskStatusNormal False False) 10 (exDiskInfo 1 ''/d1'')
     (ninfo exNode) = Some ErrExist \<and>
   CheckDiskInfoDuplicated (exMgr DiskStatusNormal False False) 11 (exDiskInfo 1 ''/d1'')
     (ninfo exNode) = Some ErrIllegalArguments \<and>
   CheckDiskInfoDuplicated (exMgr DiskStatusNormal False False) 11 (exDiskInfo 1 ''/d2'')
     (ninfo exNode) = None"
proof -
  have g: "getDisk exLegacyMgr 10 = Some 0"
    "getDisk (exMgr DiskStatusNormal False False) 10 = Some 0"
    "getDisk (exMgr DiskStatusNormal False False) 11 = None"
    by (simp_all add: getDisk_def exMgr_def exLegacyMgr_def)
  note c1 = CheckDiskInfoDuplicated_cases [of exLegacyMgr 10 "exDiskInfo 1 ''/d1''" "ninfo exNode",
      THEN conjunct1, rule_format, OF g(1)]
  note c2 = CheckDiskInfoDuplicated_cases [of "exMgr DiskStatusNormal False False" 10
      "exDiskInfo 1 ''/d1''" "ninfo exNode", THEN conjunct1, rule_format, OF g(2)]
  note c3 = CheckDiskInfoDuplicated_cases [of "exMgr DiskStatusNormal False False" 11
      "exDiskInfo 1 ''/d1''" "ninfo exNode", THEN conjunct2, rule_format, OF g(3)]
  note c4 = CheckDiskInfoDuplicated_cases [of "exMgr DiskStatusNormal False False" 11
      "exDiskInfo 1 ''/d2''" "ninfo exNode", THEN conjunct2, rule_format, OF g(3)]
  show ?thesis
    unfolding c1 c2 c3 c4
    by (simp add: exLegacyMgr_def exMgr_def exDisk_def exNode_def exDiskInfo_def InvalidNodeID_def)
qed

section \<open>Dropping a node\<close>

lemma droppedNodeCheck_None_iff:
  "(droppedNodeCheck d ds = None) = (\<forall>(k, dp) \<in> set ds. \<not> needFilter (diskHeap d dp))"
  by (induction ds) (auto split: if_splits)

text \<open>
  Claim C8. For a registered node that the persistence collaborator reports as recorded
  in the dropping-node list: if one of the node's disks is still filterable,
  \<open>applyDroppedNode\<close> returns nil and the manager is unchanged; if none is, it calls
  \<open>droppedNode\<close>, and when that write succeeds it returns nil, the store is the one the
  collaborator returned, the node's status is \<open>Dropped\<close>, its dropping flag is cleared
  and the node is no member of its NodeSet (a failed write is returned as an error and
  the manager is unchanged).
\<close>

theorem applyDroppedNode_cases:
  assumes "isDroppingNode (handler d) (pstore d) nodeId = Inr True"
    and "getNode d nodeId = Some np"
  shows "((\<exists>(k, dp) \<in> set (disks (nodeHeap d np)). needFilter (diskHeap d dp)) \<longrightarrow>
            applyDroppedNode d nodeId = (None, d)) \<and>
         ((\<forall>(k, dp) \<in> set (disks (nodeHeap d np)). \<not> needFilter (diskHeap d dp)) \<longrightarrow>
            (case droppedNode (handler d) (pstore d) (nodeID (nodeHeap d np)) of
               Inl err \<Rightarrow>
                 applyDroppedNode d nodeId =
                   (Some (ErrInfo err ''diskMgr.droppedNode dropped node failed''), d)
             | Inr p \<Rightarrow>
                 (\<exists>d'. applyDroppedNode d nodeId = (None, d') \<and>
                    pstore d' = p \<and>
                    nStatus (ninfo (nodeHeap d' np)) = NodeStatusDropped \<and>
                    \<not> ndropping (nodeHeap d' np) \<and>
                    nodeID (nodeHeap d' np) \<notin>
                      nodeSets (topo d') (nDiskType (ninfo (nodeHeap d np)),
                                          nNodeSetID (ninfo (nodeHeap d np))) \<and>
                    topo d' = RemoveNodeFromNodeSet (topo d) (nodeHeap d' np) \<and>
                    nodeHeap d' = (nodeHeap d)(np := (nodeHeap d np)
                      \<lparr>ninfo := (ninfo (nodeHeap d np))\<lparr>nStatus := NodeStatusDropped\<rparr>,
                       ndropping := False\<rparr>) \<and>
                    diskHeap d' = diskHeap d \<and> allDisks d' = allDisks d \<and>
                    allNodes d' = allNodes d)))"
proof -
  have c: "(droppedNodeCheck d (disks (nodeHeap d np)) = None) =
      (\<forall>(k, dp) \<in> set (disks (nodeHeap d np)). \<not> needFilter (diskHeap d dp))"
    by (rule droppedNodeCheck_None_iff)
  show ?thesis
  proof (cases "droppedNodeCheck d (disks (nodeHeap d np))")
    case None
    with c have "\<forall>(k, dp) \<in> set (disks (nodeHeap d np)). \<not> needFilter (diskHeap d dp)"
      by simp
    then have nex: "\<not> (\<exists>(k, dp) \<in> set (disks (nodeHeap d np)). needFilter (diskHeap d dp))"
      by auto
    show ?thesis
      using assms None nex
      by (auto simp add: applyDroppedNode_def Let_def RemoveNodeFromNodeSet_def split: sum.splits)
  next
    case (Some e)
    with c have "\<not> (\<forall>(k, dp) \<in> set (disks (nodeHeap d np)). \<not> needFilter (diskHeap d dp))"
      by simp
    then show ?thesis
      using assms Some by (auto simp add: applyDroppedNode_def Let_def)
  qed
qed

theorem applyDroppedNode_cases_witness:
  "applyDroppedNode (exNodeMgr DiskStatusNormal) 1 = (None, exNodeMgr DiskStatusNormal) \<and>
   fst (applyDroppedNode (exNodeMgr DiskStatusDropped) 1) = None \<and>
   pstore (snd (applyDroppedNode (exNodeMgr DiskStatusDropped) 1)) = ({}, {}) \<and>
   nStatus (ninfo (nodeHeap (snd (applyDroppedNode (exNodeMgr DiskStatusDropped) 1)) 0)) =
     NodeStatusDropped \<and>
   \<not> ndropping (nodeHeap (snd (applyDroppedNode (exNodeMgr DiskStatusDropped) 1)) 0) \<and>
   1 \<in> nodeSets (topo (exNodeMgr DiskStatusDropped)) (1, 1) \<and>
   1 \<notin> nodeSets (topo (snd (applyDroppedNode (exNodeMgr DiskStatusDropped) 1))) (1, 1)"
proof -
  have h: "\<And>st. isDroppingNode (handler (exNodeMgr st)) (pstore (exNodeMgr st)) 1 = Inr True"
    by (simp add: exNodeMgr_def exMgr_def memHandler_def)
  have g: "\<And>st. getNode (exNodeMgr st) 1 = Some 0"
    by (simp add: exNodeMgr_def exMgr_def getNode_def)
  have s: "\<And>st. nodeHeap (exNodeMgr st) 0 = exNode\<lparr>ndropping := True\<rparr>"
    "\<And>st p. diskHeap (exNodeMgr st) p = exDisk st False True"
    "\<And>st. droppedNode (handler (exNodeMgr st)) (pstore (exNodeMgr st)) (Suc 0) = Inr ({}, {})"
    "\<And>st. topo (exNodeMgr st) = exTopo"
    by (simp_all add: exNodeMgr_def exMgr_def memHandler_def)
  show ?thesis
    using applyDroppedNode_cases [OF h g, of DiskStatusNormal]
      applyDroppedNode_cases [OF h g, of DiskStatusDropped]
    by (auto simp add: s exNode_def exDisk_def needFilter_def exTopo_def)
qed

text \<open>
  Claim C10. For a registered node that is not in using status or is already dropping,
  \<open>applyDroppingNode\<close> returns \<open>(True, nil)\<close>, not \<open>ErrCMNodeIsDropping\<close>, and the
  manager (the node, its disks, the topology) is unchanged, in pre-check and in commit
  mode.
\<close>

theorem applyDroppingNode_already:
  assumes "getNode d nodeId = Some np"
    and "\<not> isUsingStatus (nodeHeap d np) \<or> ndropping (nodeHeap d np)"
  shows "applyDroppingNode d nodeId isCommit = ((True, None), d)"
  using assms by (auto simp add: applyDroppingNode_def Let_def)

theorem applyDroppingNode_already_witness:
  "applyDroppingNode (exNodeMgr DiskStatusNormal) 1 False =
     ((True, None), exNodeMgr DiskStatusNormal) \<and>
   applyDroppingNode (exNodeMgr DiskStatusNormal) 1 True =
     ((True, None), exNodeMgr DiskStatusNormal)"
proof -
  have g: "getNode (exNodeMgr DiskStatusNormal) 1 = Some 0"
    by (simp add: exNodeMgr_def exMgr_def getNode_def)
  have dr: "\<not> isUsingStatus (nodeHeap (exNodeMgr DiskStatusNormal) 0) \<or>
      ndropping (nodeHeap (exNodeMgr DiskStatusNormal) 0)"
    by (simp add: exNodeMgr_def exMgr_def)
  show ?thesis
    using applyDroppingNode_already [OF g dr, of False] applyDroppingNode_already [OF g dr, of True]
    by simp
qed

section \<open>Switching the readonly bit\<close>

lemma Readonly_rollback:
  assumes "Readonly (info disk) \<noteq> readonly"
  shows "disk\<lparr>info := (info disk)\<lparr>Readonly := \<not> readonly\<rparr>\<rparr> = disk"
proof -
  from assms have "(info disk)\<lparr>Readonly := \<not> readonly\<rparr> = info disk"
    by auto
  then show ?thesis by simp
qed

text \<open>
  Claim C9. For a registered disk: if the readonly bit already equals the request,
  \<open>applySwitchReadonly\<close> returns nil and the manager is unchanged whatever the
  persistence collaborator is (it is not called); otherwise, if \<open>updateDiskNoLocked\<close>
  succeeds on the disk with the new bit, it returns nil, the disk has the requested
  bit and the store is the one the collaborator returned; and if the write fails, it
  returns that error and the manager is unchanged (the bit is set back).
\<close>

theorem applySwitchReadonly_cases:
  assumes "getDisk d diskId = Some dp"
  shows "(Readonly (info (diskHeap d dp)) = readonly \<longrightarrow>
            (\<forall>h. applySwitchReadonly (d\<lparr>handler := h\<rparr>) diskId readonly =
                   Some (None, d\<lparr>handler := h\<rparr>))) \<and>
         (Readonly (info (diskHeap d dp)) \<noteq> readonly \<longrightarrow>
            (case updateDiskNoLocked (handler d) (pstore d)
                    ((diskHeap d dp)\<lparr>info := (info (diskHeap d dp))\<lparr>Readonly := readonly\<rparr>\<rparr>) of
               Inr p \<Rightarrow>
                 applySwitchReadonly d diskId readonly =
                   Some (None, d\<lparr>pstore := p, diskHeap := (diskHeap d)
                     (dp := (diskHeap d dp)\<lparr>info := (info (diskHeap d dp))\<lparr>Readonly := readonly\<rparr>\<rparr>)\<rparr>)
             | Inl err \<Rightarrow> applySwitchReadonly d diskId readonly = Some (Some err, d)))"
proof -
  have rb: "Readonly (info (diskHeap d dp)) \<noteq> readonly \<Longrightarrow>
      d\<lparr>diskHeap := (diskHeap d)
          (dp := (diskHeap d dp)\<lparr>info := (info (diskHeap d dp))\<lparr>Readonly := \<not> readonly\<rparr>\<rparr>)\<rparr> = d"
    by (simp add: Readonly_rollback)
  show ?thesis
    using assms rb
    by (auto simp add: applySwitchReadonly_def Let_def getDisk_def split: sum.splits)
qed

theorem applySwitchReadonly_cases_witness:
  "applySwitchReadonly (exFailMgr DiskStatusNormal False False) 10 False =
     Some (None, exFailMgr DiskStatusNormal False False) \<and>
   applySwitchReadonly (exFailMgr DiskStatusNormal False False) 10 True =
     Some (Some (ErrPersistence 1), exFailMgr DiskStatusNormal False False) \<and>
   fst (the (applySwitchReadonly (exMgr DiskStatusNormal False False) 10 True)) = None \<and>
   Readonly (info (diskHeap
     (snd (the (applySwitchReadonly (exMgr DiskStatusNormal False False) 10 True))) 0))"
proof -
  have g: "\<And>st dr ro. getDisk (exMgr st dr ro) 10 = Some 0"
    by (simp add: getDisk_def exMgr_def)
  have s: "\<And>st dr ro. diskHeap (exMgr st dr ro) 0 = exDisk st dr ro"
    "\<And>st dr ro x. updateDiskNoLocked (handler (exMgr st dr ro)) (pstore (exMgr st dr ro)) x =
       Inr (pstore (exMgr st dr ro))"
    by (simp_all add: exMgr_def memHandler_def)
  have f: "getDisk (exFailMgr DiskStatusNormal False False) 10 = Some 0"
    "diskHeap (exFailMgr DiskStatusNormal False False) 0 = exDisk DiskStatusNormal False False"
    "\<And>x. updateDiskNoLocked (handler (exFailMgr DiskStatusNormal False False))
       (pstore (exFailMgr DiskStatusNormal False False)) x = Inl (ErrPersistence 1)"
    by (simp_all add: exFailMgr_def exMgr_def getDisk_def failHandler_def)
  have e: "(exMgr DiskStatusNormal False False)\<lparr>handler := failHandler\<rparr> =
      exFailMgr DiskStatusNormal False False"
    by (simp add: exFailMgr_def)
  have same: "Readonly (info (diskHeap (exMgr DiskStatusNormal False False) 0)) = False"
    by (simp add: s exDisk_def)
  note c1 = applySwitchReadonly_cases [OF g, of DiskStatusNormal False False False,
      THEN conjunct1, rule_format, OF same, of failHandler]
  show ?thesis
    using c1 applySwitchReadonly_cases [OF f(1), of True]
      applySwitchReadonly_cases [OF g, of DiskStatusNormal False False True]
    by (simp add: s f e exDisk_def)
qed

section \<open>Heartbeat expiry events\<close>

lemma wrap64_id: "in64 x \<Longrightarrow> wrap64 x = x"
  by (simp add: in64_def wrap64_def)

lemma sat64_id: "in64 x \<Longrightarrow> sat64 x = x"
  by (simp add: in64_def sat64_def)

lemma in64_twice:
  assumes "in64 (2 * s * Second)"
  shows "in64 (2 * s)"
  using assms unfolding in64_def Second_def by linarith

lemma heartbeatLoop_other:
  assumes "wellKeyed d" and "k \<notin> set order"
  shows "count_list (heartbeatLoop isExpire d now (List.map_filter (allDisks d) order))
           \<lparr>DiskID = k, IsAlive = b\<rparr> = 0"
  using assms(2)
proof (induction order)
  case Nil
  then show ?case by (simp add: List.map_filter_simps)
next
  case (Cons a order)
  then have ak: "a \<noteq> k" and ih: "count_list (heartbeatLoop isExpire d now (List.map_filter (allDisks d) order))
           \<lparr>DiskID = k, IsAlive = b\<rparr> = 0" by auto
  show ?case
  proof (cases "allDisks d a")
    case None
    then show ?thesis using ih by (simp add: List.map_filter_simps)
  next
    case (Some p)
    with assms(1) have "diskID (diskHeap d p) = a" by (simp add: wellKeyed_def)
    then show ?thesis using ih ak Some by (simp add: List.map_filter_simps Let_def)
  qed
qed

text \<open>
  Claim C4, as amended. In a sweep at time \<open>now\<close> over the registered disks (each
  visited once, each carrying the id it is registered under), a disk that is expired
  and filterable is reported with \<open>alive = false\<close> exactly once in the returned list
  when \<open>now - expire_time < 2 * heartbeat_expire_interval\<close>, and is not reported when
  \<open>now - expire_time \<ge> 2 * heartbeat_expire_interval\<close>. The durations are within
  \<^verbatim>\<open>int64\<close>. Nothing is said of other sweeps: each sweep inside the window reports the
  disk again.
\<close>

theorem GetHeartbeatChangeDisks_expired:
  assumes "distinct order" and "k \<in> set order" and "allDisks d k = Some dp" and "wellKeyed d"
    and "isExpire now (diskHeap d dp)" and "needFilter (diskHeap d dp)"
    and "in64 (2 * HeartbeatExpireIntervalS (cfg d) * Second)"
    and "in64 (now - expireTime (diskHeap d dp))"
  shows "count_list (GetHeartbeatChangeDisks isExpire d now order) \<lparr>DiskID = k, IsAlive = False\<rparr> =
           (if now - expireTime (diskHeap d dp) < 2 * HeartbeatExpireIntervalS (cfg d) * Second
            then 1 else 0)"
proof -
  have thr: "wrap64 (wrap64 (2 * HeartbeatExpireIntervalS (cfg d)) * Second) =
      2 * HeartbeatExpireIntervalS (cfg d) * Second"
    using assms(7) by (simp add: wrap64_id in64_twice)
  have since: "sat64 (now - expireTime (diskHeap d dp)) = now - expireTime (diskHeap d dp)"
    using assms(8) by (rule sat64_id)
  have kd: "diskID (diskHeap d dp) = k"
    using assms(3,4) by (simp add: wellKeyed_def)
  have "count_list (heartbeatLoop isExpire d now (List.map_filter (allDisks d) order))
          \<lparr>DiskID = k, IsAlive = False\<rparr> =
           (if now - expireTime (diskHeap d dp) < 2 * HeartbeatExpireIntervalS (cfg d) * Second
            then 1 else 0)"
    using assms(1,2)
  proof (induction order)
    case Nil
    then show ?case by simp
  next
    case (Cons a order)
    show ?case
    proof (cases "a = k")
      case True
      with Cons.prems have "k \<notin> set order" by simp
      then have rest: "count_list (heartbeatLoop isExpire d now (List.map_filter (allDisks d) order))
           \<lparr>DiskID = k, IsAlive = False\<rparr> = 0"
        using assms(4) by (simp add: heartbeatLoop_other)
      show ?thesis
        using True assms(3,5,6) rest thr since kd
        by (simp add: List.map_filter_simps Let_def)
    next
      case False
      with Cons.prems have "distinct order" "k \<in> set order" by auto
      then have ih: "count_list (heartbeatLoop isExpire d now (List.map_filter (allDisks d) order))
          \<lparr>DiskID = k, IsAlive = False\<rparr> =
           (if now - expireTime (diskHeap d dp) < 2 * HeartbeatExpireIntervalS (cfg d) * Second
            then 1 else 0)" by (rule Cons.IH)
      show ?thesis
      proof (cases "allDisks d a")
        case None
        then show ?thesis using ih by (simp add: List.map_filter_simps)
      next
        case (Some p)
        with assms(4) have "diskID (diskHeap d p) = a" by (simp add: wellKeyed_def)
        then show ?thesis using ih False Some by (simp add: List.map_filter_simps Let_def)
      qed
    qed
  qed
  then show ?thesis by (simp add: GetHeartbeatChangeDisks_def getAllDisk_def)
qed

text \<open>
  Claim C4 as stated fails: the disk 10 of the example manager stays silent (its expire
  time is 100 s and no heartbeat arrives), the expire interval is 60 s, and the sweeps
  at 110 s and at 120 s both return the event \<open>{10, alive = false}\<close>.
\<close>

theorem GetHeartbeatChangeDisks_repeats:
  "GetHeartbeatChangeDisks expiredAt (exMgr DiskStatusNormal False False) (110 * Second) [10] =
     [\<lparr>DiskID = 10, IsAlive = False\<rparr>] \<and>
   GetHeartbeatChangeDisks expiredAt (exMgr DiskStatusNormal False False) (120 * Second) [10] =
     [\<lparr>DiskID = 10, IsAlive = False\<rparr>]"
  by (simp add: GetHeartbeatChangeDisks_def getAllDisk_def List.map_filter_simps exMgr_def
      exDisk_def exCfg_def expiredAt_def needFilter_def Second_def wrap64_def sat64_def Let_def)

theorem GetHeartbeatChangeDisks_expired_witness:
  "count_list (GetHeartbeatChangeDisks expiredAt (exMgr DiskStatusNormal False False)
      (110 * Second) [10]) \<lparr>DiskID = 10, IsAlive = False\<rparr> = 1 \<and>
   count_list (GetHeartbeatChangeDisks expiredAt (exMgr DiskStatusNormal False False)
      (220 * Second) [10]) \<lparr>DiskID = 10, IsAlive = False\<rparr> = 0"
proof -
  have a: "distinct [10::nat]" "(10::nat) \<in> set [10]" by simp_all
  have g: "allDisks (exMgr DiskStatusNormal False False) 10 = Some 0"
    by (simp add: exMgr_def)
  have w: "wellKeyed (exMgr DiskStatusNormal False False)"
    by (simp add: wellKeyed_def exMgr_def exDisk_def)
  have e: "expiredAt (110 * Second) (diskHeap (exMgr DiskStatusNormal False False) 0)"
    "expiredAt (220 * Second) (diskHeap (exMgr DiskStatusNormal False False) 0)"
    by (simp_all add: expiredAt_def exMgr_def exDisk_def Second_def)
  have f: "needFilter (diskHeap (exMgr DiskStatusNormal False False) 0)"
    by (simp add: needFilter_def exMgr_def exDisk_def)
  have r: "in64 (2 * HeartbeatExpireIntervalS (cfg (exMgr DiskStatusNormal False False)) * Second)"
    "in64 (110 * Second - expireTime (diskHeap (exMgr DiskStatusNormal False False) 0))"
    "in64 (220 * Second - expireTime (diskHeap (exMgr DiskStatusNormal False False) 0))"
    by (simp_all add: in64_def exMgr_def exCfg_def exDisk_def Second_def)
  have v: "HeartbeatExpireIntervalS (cfg (exMgr DiskStatusNormal False False)) = 60"
    "expireTime (diskHeap (exMgr DiskStatusNormal False False) 0) = 100 * Second"
    by (simp_all add: exMgr_def exCfg_def exDisk_def)
  show ?thesis
    using GetHeartbeatChangeDisks_expired [of "[10]" 10 "exMgr DiskStatusNormal False False" 0
        expiredAt "110 * Second", OF a g w e(1) f r(1) r(2)]
      GetHeartbeatChangeDisks_expired [of "[10]" 10 "exMgr DiskStatusNormal False False" 0
        expiredAt "220 * Second", OF a g w e(2) f r(1) r(3)]
    by (simp add: v Second_def)
qed

section \<open>A dropped disk is not dropping\<close>

lemma SetStatusApply_frame:
  assumes "SetStatusApply d diskId dp status = (e, d1)"
  shows "allDisks d1 = allDisks d \<and>
         (\<forall>q. dropping (diskHeap d1 q) = dropping (diskHeap d q)) \<and>
         (\<forall>q. q \<noteq> dp \<longrightarrow> diskHeap d1 q = diskHeap d q) \<and>
         (Status (info (diskHeap d1 dp)) = Status (info (diskHeap d dp)) \<or>
          Status (info (diskHeap d1 dp)) = status)"
  using assms
  by (auto simp add: SetStatusApply_def Let_def split: if_splits sum.splits option.splits)

lemma SetStatus_frame:
  assumes "SetStatus d diskId status isCommit = Some (e, d1)"
  shows "allDisks d1 = allDisks d \<and>
         (\<forall>q. dropping (diskHeap d1 q) = dropping (diskHeap d q)) \<and>
         (\<forall>q. getDisk d diskId \<noteq> Some q \<longrightarrow> diskHeap d1 q = diskHeap d q) \<and>
         (\<forall>q. Status (info (diskHeap d1 q)) = Status (info (diskHeap d q)) \<or>
              (Status (info (diskHeap d1 q)) = status \<and> isCommit \<and> getDisk d diskId = Some q))"
proof (cases "validSetStatus status")
  case None
  with assms show ?thesis by (simp add: SetStatus_def)
next
  case (Some a)
  show ?thesis
  proof (cases "getDisk d diskId")
    case None
    with assms Some show ?thesis by (simp add: SetStatus_def)
  next
    case (Some dp)
    note dp = this
    show ?thesis
    proof (cases "SetStatusCheck (diskHeap d dp) status a isCommit = Some None \<and> isCommit")
      case False
      with assms \<open>validSetStatus status = Some a\<close> dp have "d1 = d"
        by (auto simp add: SetStatus_def split: option.splits if_splits)
      then show ?thesis by simp
    next
      case True
      with assms \<open>validSetStatus status = Some a\<close> dp
      have "SetStatusApply d diskId dp status = (e, d1)"
        by (auto simp add: SetStatus_def)
      from SetStatusApply_frame [OF this] dp True show ?thesis
        by (metis option.inject)
    qed
  qed
qed

lemma SetStatus_preserves:
  assumes "droppedNotDropping d" and "\<not> directDrop d (OpSetStatus diskId status isCommit)"
    and "SetStatus d diskId status isCommit = Some (e, d1)"
  shows "droppedNotDropping d1"
  unfolding droppedNotDropping_def
proof (intro allI impI)
  fix q
  assume dr: "Status (info (diskHeap d1 q)) = DiskStatusDropped"
  note f = SetStatus_frame [OF assms(3)]
  from f have "Status (info (diskHeap d1 q)) = Status (info (diskHeap d q)) \<or>
              (Status (info (diskHeap d1 q)) = status \<and> isCommit \<and> getDisk d diskId = Some q)"
    by blast
  then have "\<not> dropping (diskHeap d q)"
  proof
    assume "Status (info (diskHeap d1 q)) = Status (info (diskHeap d q))"
    with dr assms(1) show ?thesis by (simp add: droppedNotDropping_def)
  next
    assume "Status (info (diskHeap d1 q)) = status \<and> isCommit \<and> getDisk d diskId = Some q"
    with dr assms(2) show ?thesis by simp
  qed
  with f show "\<not> dropping (diskHeap d1 q)" by simp
qed

lemma applyDroppedDisk_preserves:
  assumes "droppedNotDropping d" and "applyDroppedDisk d diskId = Some (e, d1)"
  shows "droppedNotDropping d1"
proof (cases "isDroppingDisk (handler d) (pstore d) diskId")
  case (Inl err)
  with assms show ?thesis by (simp add: applyDroppedDisk_def)
next
  case (Inr exist)
  show ?thesis
  proof (cases exist)
    case False
    with assms Inr show ?thesis by (simp add: applyDroppedDisk_def)
  next
    case True
    with assms(2) Inr obtain e0 d0 dp where
      s: "SetStatus d diskId DiskStatusDropped True = Some (e0, d0)"
      and g: "getDisk d0 diskId = Some dp"
      and d1: "d1 = d0\<lparr>diskHeap := (diskHeap d0)(dp := (diskHeap d0 dp)\<lparr>dropping := False\<rparr>)\<rparr>"
      by (auto simp add: applyDroppedDisk_def Let_def split: option.splits)
    note f = SetStatus_frame [OF s]
    from f g have g': "getDisk d diskId = Some dp" by (simp add: getDisk_def)
    show ?thesis
      unfolding droppedNotDropping_def
    proof (intro allI impI)
      fix q
      assume dr: "Status (info (diskHeap d1 q)) = DiskStatusDropped"
      show "\<not> dropping (diskHeap d1 q)"
      proof (cases "q = dp")
        case True
        then show ?thesis by (simp add: d1)
      next
        case False
        with g' f have "diskHeap d0 q = diskHeap d q" by simp
        with False dr assms(1) show ?thesis by (simp add: d1 droppedNotDropping_def)
      qed
    qed
  qed
qed

lemma applyDroppingDisk_preserves:
  assumes "droppedNotDropping d"
  shows "droppedNotDropping (snd (applyDroppingDisk d diskId isCommit))"
  using assms
  by (auto simp add: applyDroppingDisk_def droppedNotDropping_def Let_def
      split: option.splits sum.splits)

lemma droppingNodeDisks_preserves:
  assumes "droppedNotDropping d"
  shows "case droppingNodeDisks d nodeId isCommit ds of
           Inl r \<Rightarrow> droppedNotDropping (snd r) | Inr d1 \<Rightarrow> droppedNotDropping d1"
  using assms
proof (induction ds arbitrary: d)
  case Nil
  then show ?case by simp
next
  case (Cons a ds)
  obtain k dp where a: "a = (k, dp)" by (cases a)
  show ?case
  proof (cases "Status (info (diskHeap d dp)) \<noteq> DiskStatusNormal")
    case True
    with a Cons show ?thesis by simp
  next
    case False
    obtain al er d1 where r: "applyDroppingDisk d (diskID (diskHeap d dp)) isCommit = ((al, er), d1)"
      by (metis prod.exhaust)
    from applyDroppingDisk_preserves [OF Cons.prems, of "diskID (diskHeap d dp)" isCommit] r
    have p1: "droppedNotDropping d1" by simp
    then have p2: "\<And>x. droppedNotDropping (d1\<lparr>pendingEntries := x\<rparr>)"
      by (simp add: droppedNotDropping_def)
    show ?thesis
    proof (cases er)
      case None
      with a False r Cons.IH [OF p1] show ?thesis by simp
    next
      case (Some err)
      with a False r p1 p2 show ?thesis by (simp add: Let_def)
    qed
  qed
qed

lemma applyDroppingNode_preserves:
  assumes "droppedNotDropping d"
  shows "droppedNotDropping (snd (applyDroppingNode d nodeId isCommit))"
proof (cases "getNode d nodeId")
  case None
  with assms show ?thesis by (simp add: applyDroppingNode_def)
next
  case (Some np)
  show ?thesis
  proof (cases "\<not> isUsingStatus (nodeHeap d np) \<or> ndropping (nodeHeap d np)")
    case True
    with assms Some show ?thesis by (auto simp add: applyDroppingNode_def Let_def)
  next
    case False
    note lp = droppingNodeDisks_preserves [OF assms, of nodeId isCommit "disks (nodeHeap d np)"]
    show ?thesis
    proof (cases "droppingNodeDisks d nodeId isCommit (disks (nodeHeap d np))")
      case (Inl r)
      with lp Some False show ?thesis by (auto simp add: applyDroppingNode_def Let_def)
    next
      case (Inr d1)
      with lp have "droppedNotDropping d1" by simp
      then have "\<And>x y. droppedNotDropping (d1\<lparr>pstore := x, nodeHeap := y\<rparr>)"
        by (simp add: droppedNotDropping_def)
      with Inr Some False \<open>droppedNotDropping d1\<close> show ?thesis
        by (auto simp add: applyDroppingNode_def Let_def split: sum.splits)
    qed
  qed
qed

lemma applyDroppedNode_preserves:
  assumes "droppedNotDropping d"
  shows "droppedNotDropping (snd (applyDroppedNode d nodeId))"
  using assms
  by (auto simp add: applyDroppedNode_def droppedNotDropping_def Let_def
      split: option.splits sum.splits)

lemma applySwitchReadonly_preserves:
  assumes "droppedNotDropping d" and "applySwitchReadonly d diskId readonly = Some (e, d1)"
  shows "droppedNotDropping d1"
  using assms
  by (auto simp add: applySwitchReadonly_def droppedNotDropping_def Let_def
      split: option.splits sum.splits if_splits)

lemma applyAddDisk_preserves:
  assumes "droppedNotDropping d"
  shows "droppedNotDropping (snd (applyAddDisk d diskId diskInfo newPtr ds now))"
  using assms
  by (auto simp add: applyAddDisk_def droppedNotDropping_def Let_def
      split: option.splits sum.splits)

lemma applyHeartBeatDiskInfo_preserves:
  assumes "droppedNotDropping d"
  shows "droppedNotDropping (snd (applyHeartBeatDiskInfo d diskId extra now))"
  using assms
  by (auto simp add: applyHeartBeatDiskInfo_def droppedNotDropping_def Let_def
      split: option.splits)

lemma step_preserves:
  assumes "droppedNotDropping d" and "\<not> directDrop d opn" and "step d opn = Some d1"
  shows "droppedNotDropping d1"
proof (cases opn)
  case (OpSetStatus diskId status isCommit)
  with assms(3) obtain e where "SetStatus d diskId status isCommit = Some (e, d1)"
    by auto
  with assms(1,2) OpSetStatus show ?thesis by (auto intro: SetStatus_preserves)
next
  case (OpSwitchReadonly diskId readonly)
  with assms(3) obtain e where "applySwitchReadonly d diskId readonly = Some (e, d1)"
    by auto
  with assms(1) show ?thesis by (rule applySwitchReadonly_preserves)
next
  case (OpDroppedDisk diskId)
  with assms(3) obtain e where "applyDroppedDisk d diskId = Some (e, d1)"
    by auto
  with assms(1) show ?thesis by (rule applyDroppedDisk_preserves)
next
  case (OpAddDisk diskId diskInfo newPtr ds now)
  with assms(1,3) applyAddDisk_preserves [OF assms(1), of diskId diskInfo newPtr ds now]
  show ?thesis by auto
next
  case (OpDroppingDisk diskId isCommit)
  with assms(3) applyDroppingDisk_preserves [OF assms(1), of diskId isCommit]
  show ?thesis by auto
next
  case (OpDroppingNode nodeId isCommit)
  with assms(3) applyDroppingNode_preserves [OF assms(1), of nodeId isCommit]
  show ?thesis by auto
next
  case (OpDroppedNode nodeId)
  with assms(3) applyDroppedNode_preserves [OF assms(1), of nodeId]
  show ?thesis by auto
next
  case (OpHeartbeat diskId extra now)
  with assms(3) applyHeartBeatDiskInfo_preserves [OF assms(1), of diskId extra now]
  show ?thesis by auto
qed

text \<open>
  Claim C3, as amended. Starting from a manager in which no disk is both \<open>Dropped\<close> and
  dropping, after every sequence of manager operations (AddDisk, SetStatus,
  applySwitchReadonly, applyDroppingDisk, applyDroppedDisk, applyDroppingNode,
  applyDroppedNode, heartbeat) that is free of direct drops (no \<^verbatim>\<open>SetStatus\<close> to
  \<open>Dropped\<close> in commit mode on a disk that is dropping), every disk whose status is
  \<open>Dropped\<close> has its dropping flag unset. \<^verbatim>\<open>applyDroppedDisk\<close> is the operation that
  takes a dropping disk to \<open>Dropped\<close>: it clears the flag after its own \<^verbatim>\<open>SetStatus\<close>.
\<close>

theorem droppedNotDropping_invariant:
  assumes "droppedNotDropping d" and "directDropFree d ops" and "run d ops = Some d'"
  shows "droppedNotDropping d'"
  using assms
proof (induction ops arbitrary: d)
  case Nil
  then show ?case by simp
next
  case (Cons opn ops)
  from Cons.prems(3) obtain d1 where s: "step d opn = Some d1" and r: "run d1 ops = Some d'"
    by (auto split: option.splits)
  from Cons.prems(2) s have nd: "\<not> directDrop d opn" and f: "directDropFree d1 ops"
    by auto
  from step_preserves [OF Cons.prems(1) nd s] have "droppedNotDropping d1" .
  from Cons.IH [OF this f r] show ?case .
qed


lemmas ex_eval = SetStatus_def SetStatusCheck_def SetStatusApply_def getDisk_def
      getNode_def applySwitchReadonly_def applyDroppingDisk_def applyDroppedDisk_def
      exMgr_def exDisk_def exNode_def exTopo_def memHandler_def needFilter_def genFilterKey_def
      RemoveDiskFromDiskSet_def Let_def

text \<open>
  Claim C3 as stated fails: \<^verbatim>\<open>SetStatus\<close> never writes the dropping flag, and it lets
  \<open>Dropped\<close> through for a dropping disk. On the example manager, switching disk 10 to
  readonly, dropping it and then setting its status to \<open>Dropped\<close> with \<^verbatim>\<open>SetStatus\<close> in
  commit mode leaves the disk \<open>Dropped\<close> with the dropping flag set.
\<close>

theorem droppedNotDropping_direct_drop:
  "droppedNotDropping (exMgr DiskStatusNormal False False) \<and>
   run (exMgr DiskStatusNormal False False) exDirectDrop \<noteq> None \<and>
   Status (info (diskHeap (the (run (exMgr DiskStatusNormal False False) exDirectDrop)) 0)) =
     DiskStatusDropped \<and>
   dropping (diskHeap (the (run (exMgr DiskStatusNormal False False) exDirectDrop)) 0) \<and>
   \<not> droppedNotDropping (the (run (exMgr DiskStatusNormal False False) exDirectDrop))"
proof -
  have i: "droppedNotDropping (exMgr DiskStatusNormal False False)"
    by (simp add: droppedNotDropping_def exMgr_def exDisk_def)
  have r: "run (exMgr DiskStatusNormal False False) exDirectDrop \<noteq> None"
    by (simp add: exDirectDrop_def ex_eval)
  have s: "Status (info (diskHeap (the (run (exMgr DiskStatusNormal False False) exDirectDrop)) 0)) =
     DiskStatusDropped"
    by (simp add: exDirectDrop_def ex_eval)
  have d: "dropping (diskHeap (the (run (exMgr DiskStatusNormal False False) exDirectDrop)) 0)"
    by (simp add: exDirectDrop_def ex_eval)
  from s d have "\<not> droppedNotDropping (the (run (exMgr DiskStatusNormal False False) exDirectDrop))"
    unfolding droppedNotDropping_def by blast
  with i r s d show ?thesis by simp
qed

theorem droppedNotDropping_invariant_witness:
  "Status (info (diskHeap (the (run (exMgr DiskStatusNormal False False) exScenario)) 0)) =
     DiskStatusDropped \<and>
   \<not> dropping (diskHeap (the (run (exMgr DiskStatusNormal False False) exScenario)) 0)"
proof -
  have i: "droppedNotDropping (exMgr DiskStatusNormal False False)"
    by (simp add: droppedNotDropping_def exMgr_def exDisk_def)
  have f: "directDropFree (exMgr DiskStatusNormal False False) exScenario"
    by (simp add: exScenario_def ex_eval)
  have "run (exMgr DiskStatusNormal False False) exScenario \<noteq> None"
    by (simp add: exScenario_def ex_eval)
  then have r: "run (exMgr DiskStatusNormal False False) exScenario =
      Some (the (run (exMgr DiskStatusNormal False False) exScenario))"
    by simp
  have s: "Status (info (diskHeap (the (run (exMgr DiskStatusNormal False False) exScenario)) 0)) =
     DiskStatusDropped"
    by (simp add: exScenario_def ex_eval)
  from droppedNotDropping_invariant [OF i f r] s show ?thesis
    unfolding droppedNotDropping_def by blast
qed

section \<open>The writable space in host-aware mode\<close>

lemma specPush_pushStripe: "specPush popped h = pushStripe popped h"
  by (induction popped arbitrary: h) (auto simp add: min_def)

lemma specRound_stripeRound: "specRound k tokens = stripeRound k tokens"
  by (simp add: specRound_def stripeRound_def specPush_pushStripe)

lemma specStripeCount_nonneg: "0 \<le> specStripeCount k tokens"
proof (induction k tokens rule: specStripeCount.induct)
  case (1 k tokens)
  then show ?case by (subst specStripeCount.simps) auto
qed

lemma stripeLoop_spec:
  assumes "0 < k"
  shows "- (2 ^ 63) \<le> n \<Longrightarrow> n + specStripeCount k lefts < 2 ^ 63 \<Longrightarrow>
     stripeLoop k lefts n = Some (n + specStripeCount k lefts)"
  using assms
proof (induction k lefts arbitrary: n rule: specStripeCount.induct)
  case (1 k tokens)
  show ?case
  proof (cases "length tokens < k")
    case True
    then show ?thesis
      by (subst stripeLoop.simps, subst specStripeCount.simps) simp
  next
    case False
    with "1.prems"(3) have c: "\<not> (k = 0 \<or> length tokens < k)" by simp
    then have sp: "specStripeCount k tokens = 10 + specStripeCount k (specRound k tokens)"
      by (subst specStripeCount.simps) simp
    have nn: "0 \<le> specStripeCount k (specRound k tokens)"
      by (rule specStripeCount_nonneg)
    from "1.prems"(1,2) sp nn have w: "wrap64 (n + 10) = n + 10"
      by (intro wrap64_id) (simp add: in64_def)
    from "1.prems"(1,2) sp have b: "- (2 ^ 63) \<le> n + 10"
      "n + 10 + specStripeCount k (specRound k tokens) < 2 ^ 63"
      by simp_all
    from "1.IH" [OF c b "1.prems"(3)]
    have "stripeLoop k (specRound k tokens) (n + 10) =
        Some (n + 10 + specStripeCount k (specRound k tokens))" .
    with False w sp show ?thesis
      by (subst stripeLoop.simps) (simp add: specRound_stripeRound)
  qed
qed

lemma stripeLoop_Some_pos:
  assumes "stripeLoop k lefts n = Some y"
  shows "k \<noteq> 0"
proof (rule stripeLoop.raw_induct [where P = "\<lambda>k lefts n y. k \<noteq> 0", OF _ assms])
  fix f :: "nat \<Rightarrow> int list \<Rightarrow> int \<Rightarrow> int option" and k lefts n ka
  assume ih: "\<And>l m b y. f l m b = Some y \<Longrightarrow> l \<noteq> 0"
    and eq: "(if length lefts < k then Some n
              else f k (stripeRound k lefts) (wrap64 (n + 10))) = Some ka"
  show "k \<noteq> 0"
  proof (cases "length lefts < k")
    case True
    then show ?thesis by auto
  next
    case False
    with eq have "f k (stripeRound k lefts) (wrap64 (n + 10)) = Some ka" by simp
    then show ?thesis by (rule ih)
  qed
qed

lemma stripeLoop_zero: "stripeLoop 0 lefts n = None"
  using stripeLoop_Some_pos [of 0 lefts n] by (cases "stripeLoop 0 lefts n") auto

lemma div_le_self_int:
  assumes "0 \<le> (a::int)" and "0 < b"
  shows "0 \<le> a div b \<and> a div b \<le> a"
proof -
  from assms have "a div b \<le> a div 1" by (intro zdiv_mono2) simp_all
  moreover from assms have "0 \<le> a div b" by (simp add: pos_imp_zdiv_nonneg_iff)
  ultimately show ?thesis by simp
qed

lemma goDiv_token:
  assumes "0 < s" and "in64 f"
  shows "(wrap64 (goDiv f s) > 0) = (f div s > 0) \<and>
         (f div s > 0 \<longrightarrow> wrap64 (goDiv f s) = f div s)"
proof (cases "0 \<le> f")
  case True
  with assms(1) have g: "goDiv f s = f div s"
    by (cases "f = 0") (simp_all add: goDiv_def)
  from div_le_self_int [OF True assms(1)] assms(2) have "in64 (f div s)"
    by (simp add: in64_def)
  with g show ?thesis by (simp add: wrap64_id)
next
  case False
  then have neg: "f < 0" and pos: "0 \<le> - f" by simp_all
  with assms(1) have g: "goDiv f s = - ((- f) div s)" by (simp add: goDiv_def)
  note b = div_le_self_int [OF pos assms(1)]
  with assms(2) have "in64 (- ((- f) div s))" by (simp add: in64_def)
  with g have w: "wrap64 (goDiv f s) = - ((- f) div s)" by (simp add: wrap64_id)
  from neg assms(1) have "f div s < 0" by (simp add: div_neg_pos_less0)
  with w b show ?thesis by simp
qed

lemma loadLefts_spec:
  assumes "0 < itemSize" and "\<forall>v \<in> set stgs. in64 (free v)"
  shows "loadLefts itemSize stgs lefts = Some (lefts @ specTokens itemSize stgs)"
  using assms(2)
proof (induction stgs arbitrary: lefts)
  case Nil
  then show ?case by (simp add: specTokens_def)
next
  case (Cons v stgs)
  then have i: "in64 (free v)" and r: "\<forall>v \<in> set stgs. in64 (free v)" by simp_all
  note t = goDiv_token [OF assms(1) i]
  from assms(1) Cons.IH [OF r] t show ?case
    by (auto simp add: specTokens_def Let_def)
qed

lemma calIDCWritableFunc_spec:
  assumes "1 \<le> idcSuCount" and "0 < itemSize" and "\<forall>v \<in> set stgs. in64 (free v)"
    and "specStripeCount (nat idcSuCount) (specTokens itemSize stgs) \<le> MaxInt64"
  shows "calIDCWritableFunc idcSuCount itemSize stgs =
           Some (specStripeCount (nat idcSuCount) (specTokens itemSize stgs))"
proof -
  from assms(1) have k: "0 < nat idcSuCount" by simp
  from assms(4) have b: "0 + specStripeCount (nat idcSuCount) (specTokens itemSize stgs) < 2 ^ 63"
    by (simp add: MaxInt64_def)
  from stripeLoop_spec [OF k _ b] assms(1) loadLefts_spec [OF assms(2,3), of "[]"]
  show ?thesis by (simp add: calIDCWritableFunc_def)
qed

lemma Min_insert_min:
  assumes "finite F"
  shows "Min (insert (min a b) F) = Min (insert a (insert b F))"
proof (cases "F = {}")
  case True
  then show ?thesis by (simp add: min.commute)
next
  case False
  with assms show ?thesis by (simp add: min.assoc)
qed

lemma minStripeLoop_spec:
  assumes "1 \<le> idcSuCount" and "0 < itemSize"
    and "\<forall>e \<in> set nodeStgs. (\<forall>v \<in> set (snd e). in64 (free v)) \<and>
           specIdcStripes (nat idcSuCount) itemSize e \<le> MaxInt64"
  shows "minStripeLoop idcSuCount itemSize nodeStgs m =
           Some (Min (insert m (specIdcStripes (nat idcSuCount) itemSize ` set nodeStgs)))"
  using assms(3)
proof (induction nodeStgs arbitrary: m)
  case Nil
  then show ?case by simp
next
  case (Cons e nodeStgs)
  obtain idc stgs where e: "e = (idc, stgs)" by (cases e)
  let ?n = "specIdcStripes (nat idcSuCount) itemSize e"
  let ?F = "specIdcStripes (nat idcSuCount) itemSize ` set nodeStgs"
  from Cons.prems e have a: "\<forall>v \<in> set stgs. in64 (free v)"
    and b: "specStripeCount (nat idcSuCount) (specTokens itemSize stgs) \<le> MaxInt64"
    and r: "\<forall>e \<in> set nodeStgs. (\<forall>v \<in> set (snd e). in64 (free v)) \<and>
           specIdcStripes (nat idcSuCount) itemSize e \<le> MaxInt64"
    by (simp_all add: specIdcStripes_def)
  from calIDCWritableFunc_spec [OF assms(1,2) a b] e
  have c: "calIDCWritableFunc idcSuCount itemSize stgs = Some ?n"
    by (simp add: specIdcStripes_def)
  have "minStripeLoop idcSuCount itemSize (e # nodeStgs) m =
      minStripeLoop idcSuCount itemSize nodeStgs (min ?n m)"
    unfolding e using c by (simp add: min_def e)
  also have "\<dots> = Some (Min (insert (min ?n m) ?F))"
    by (rule Cons.IH [OF r])
  also have "Min (insert (min ?n m) ?F) = Min (insert ?n (insert m ?F))"
    by (rule Min_insert_min) simp
  finally show ?case by (simp add: insert_commute)
qed


lemma Min_insert_MaxInt64:
  assumes "finite F" and "F \<noteq> {}" and "\<forall>x \<in> F. x \<le> m"
  shows "Min (insert m F) = Min F"
proof -
  from assms(1,2) have "Min F \<in> F" by (rule Min_in)
  with assms(3) have "Min F \<le> m" by blast
  moreover from assms(1,2) have "Min (insert m F) = min m (Min F)" by (rule Min_insert)
  ultimately show ?thesis by (simp add: min_def)
qed

lemma calculateWritable_hostAware_spec:
  assumes "HostAware c" and "nodeStgs \<noteq> []"
    and "getMaxSuCount c = Some ((N, M, L), suCount)"
    and "IDC c \<noteq> []"
    and "idcSuCount = goDiv suCount (int (length (IDC c)))"
    and "itemSize = (if ShardSize c \<noteq> 0 then ShardSize c else ChunkSize c)"
    and "0 < itemSize" and "1 \<le> idcSuCount"
    and "\<forall>e \<in> set nodeStgs. (\<forall>v \<in> set (snd e). in64 (free v)) \<and>
           specIdcStripes (nat idcSuCount) itemSize e \<le> MaxInt64"
    and "S = Min (specIdcStripes (nat idcSuCount) itemSize ` set nodeStgs)"
    and "in64 (S * N)" and "in64 (S * N * itemSize)"
  shows "calculateWritable c nodeStgs = Some (S * N * itemSize)"
proof -
  let ?F = "specIdcStripes (nat idcSuCount) itemSize ` set nodeStgs"
  from assms(2) have ne: "?F \<noteq> {}" by simp
  from assms(9) have le: "\<forall>x \<in> ?F. x \<le> MaxInt64" by auto
  have "minStripeLoop idcSuCount itemSize nodeStgs MaxInt64 = Some (Min (insert MaxInt64 ?F))"
    using assms(8,7,9) by (rule minStripeLoop_spec)
  also have "Min (insert MaxInt64 ?F) = S"
    unfolding assms(10) using ne le by (intro Min_insert_MaxInt64) simp_all
  finally have "minStripeLoop idcSuCount itemSize nodeStgs MaxInt64 = Some S" .
  then have m: "minStripeLoop (goDiv suCount (int (length (IDC c))))
      (if ShardSize c \<noteq> 0 then ShardSize c else ChunkSize c) nodeStgs MaxInt64 = Some S"
    unfolding assms(5,6) .
  from assms(11,12) have "wrap64 (wrap64 (S * N) * itemSize) = S * N * itemSize"
    by (simp add: wrap64_id)
  then have w: "wrap64 (wrap64 (S * N) * (if ShardSize c \<noteq> 0 then ShardSize c else ChunkSize c)) =
      S * N * (if ShardSize c \<noteq> 0 then ShardSize c else ChunkSize c)"
    unfolding assms(6) .
  from assms(1,2,3,4) m w show ?thesis
    unfolding assms(6) by (simp add: calculateWritable_def Let_def)
qed

lemma specStripeCount_four_tens: "specStripeCount 4 [10, 10, 10, 10] = 10"
proof -
  have p: "popStripe 4 [10, 10, 10, 10] = ([10, 10, 10, 10], [])"
    by (simp add: eval_nat_numeral heapPop_def)
  have r: "specRound 4 [10, 10, 10, 10] = []"
    by (simp add: specRound_def p)
  have "specStripeCount 4 [10, 10, 10, 10] = 10 + specStripeCount 4 []"
    by (subst specStripeCount.simps) (simp add: r)
  also have "specStripeCount 4 [] = 0"
    by (subst specStripeCount.simps) simp
  finally show ?thesis by simp
qed

lemma specTokens_tens:
  assumes "0 < itemSize" and "map free stgs = replicate 4 (10 * itemSize)"
  shows "specTokens itemSize stgs = [10, 10, 10, 10]"
proof -
  have "map (\<lambda>v. free v div itemSize) stgs = map (\<lambda>f. f div itemSize) (map free stgs)"
    by simp
  also have "\<dots> = replicate 4 10"
    unfolding assms(2) using assms(1) by simp
  finally show ?thesis by (simp add: specTokens_def eval_nat_numeral)
qed

lemma maxSuLoop_sum:
  assumes "0 < su \<longrightarrow> idx < length pre \<and> (case (pre @ rest) ! idx of (N, M, L) \<Rightarrow> N + M + L) = su"
    and "maxSuLoop rest (length pre) idx su = (idx', su')" and "0 < su'"
  shows "idx' < length (pre @ rest) \<and> (case (pre @ rest) ! idx' of (N, M, L) \<Rightarrow> N + M + L) = su'"
  using assms
proof (induction rest arbitrary: pre idx su)
  case Nil
  then show ?case by auto
next
  case (Cons m rest)
  obtain N M L where m: "m = (N, M, L)" by (cases m)
  show ?case
  proof (cases "N + M + L > su")
    case True
    with Cons.prems(2) m have r: "maxSuLoop rest (length (pre @ [m])) (length pre) (N + M + L) = (idx', su')"
      by simp
    have i: "0 < N + M + L \<longrightarrow> length pre < length (pre @ [m]) \<and>
        (case ((pre @ [m]) @ rest) ! length pre of (N, M, L) \<Rightarrow> N + M + L) = N + M + L"
      by (simp add: m)
    from Cons.IH [OF i r Cons.prems(3)] show ?thesis by simp
  next
    case False
    with Cons.prems(2) m have r: "maxSuLoop rest (length (pre @ [m])) idx su = (idx', su')"
      by simp
    from Cons.prems(1) have i: "0 < su \<longrightarrow> idx < length (pre @ [m]) \<and>
        (case ((pre @ [m]) @ rest) ! idx of (N, M, L) \<Rightarrow> N + M + L) = su"
      by auto
    from Cons.IH [OF i r Cons.prems(3)] show ?thesis by simp
  qed
qed

lemma getMaxSuCount_sum:
  assumes "getMaxSuCount c = Some ((N, M, L), suCount)" and "0 < suCount"
  shows "N + M + L = suCount"
proof -
  obtain idx su where l: "maxSuLoop (CodeModes c) 0 0 0 = (idx, su)"
    by (cases "maxSuLoop (CodeModes c) 0 0 0")
  with assms(1) have s: "su = suCount" and n: "CodeModes c ! idx = (N, M, L)"
    by (auto simp add: getMaxSuCount_def split: if_splits)
  have "maxSuLoop (CodeModes c) (length ([] :: (int \<times> int \<times> int) list)) 0 0 = (idx, su)"
    using l by simp
  from maxSuLoop_sum [where pre = "[]" and su = 0, OF _ this] assms(2) s n
  show ?thesis by simp
qed


text \<open>
  Claim C2, as amended. In host-aware mode, for a configuration with a code mode and an
  IDC, \<open>idc_su_count \<ge> 1\<close>, \<open>item_size > 0\<close> and a non-empty \<^verbatim>\<open>nodeStgs\<close>, with all
  quantities within \<^verbatim>\<open>int64\<close>: \<open>calculateWritable\<close> returns \<open>S * N * item_size\<close>, where
  \<open>S\<close> is the minimum, over the IDCs that have an entry in \<^verbatim>\<open>nodeStgs\<close>, of the stripe
  count of the spec's heap procedure, and \<open>N\<close> belongs to the code mode with the largest
  \<open>N + M + L\<close>. In particular, with 3 IDCs, \<open>N + M + L = 12\<close> and 4 hosts with
  \<open>free = 10 * item_size\<close> in each of 3 entries, \<open>idc_su_count\<close> is 4, every stripe count
  is 10 and the result is \<open>10 * N * item_size\<close>.
\<close>

theorem calculateWritable_hostAware:
  assumes "HostAware c" and "nodeStgs \<noteq> []"
    and "getMaxSuCount c = Some ((N, M, L), suCount)"
    and "IDC c \<noteq> []"
    and "idcSuCount = goDiv suCount (int (length (IDC c)))"
    and "itemSize = (if ShardSize c \<noteq> 0 then ShardSize c else ChunkSize c)"
    and "0 < itemSize"
    and "S = Min (specIdcStripes (nat idcSuCount) itemSize ` set nodeStgs)"
  shows "(0 < suCount \<longrightarrow> N + M + L = suCount) \<and>
         (1 \<le> idcSuCount \<and>
          (\<forall>e \<in> set nodeStgs. (\<forall>v \<in> set (snd e). in64 (free v)) \<and>
             specIdcStripes (nat idcSuCount) itemSize e \<le> MaxInt64) \<and>
          in64 (S * N) \<and> in64 (S * N * itemSize) \<longrightarrow>
          calculateWritable c nodeStgs = Some (S * N * itemSize)) \<and>
         (length (IDC c) = 3 \<and> suCount = 12 \<and> length nodeStgs = 3 \<and>
          (\<forall>e \<in> set nodeStgs. map free (snd e) = replicate 4 (10 * itemSize)) \<and>
          in64 (10 * itemSize) \<and> in64 (10 * N) \<and> in64 (10 * N * itemSize) \<longrightarrow>
          idcSuCount = 4 \<and>
          (\<forall>e \<in> set nodeStgs. specIdcStripes (nat idcSuCount) itemSize e = 10) \<and>
          calculateWritable c nodeStgs = Some (10 * N * itemSize))"
proof (intro conjI impI)
  assume "0 < suCount"
  with assms(3) show "N + M + L = suCount" by (rule getMaxSuCount_sum)
next
  assume h: "1 \<le> idcSuCount \<and>
          (\<forall>e \<in> set nodeStgs. (\<forall>v \<in> set (snd e). in64 (free v)) \<and>
             specIdcStripes (nat idcSuCount) itemSize e \<le> MaxInt64) \<and>
          in64 (S * N) \<and> in64 (S * N * itemSize)"
  then have h1: "1 \<le> idcSuCount"
    and h2: "\<forall>e \<in> set nodeStgs. (\<forall>v \<in> set (snd e). in64 (free v)) \<and>
             specIdcStripes (nat idcSuCount) itemSize e \<le> MaxInt64"
    and h3: "in64 (S * N)" and h4: "in64 (S * N * itemSize)"
    by simp_all
  show "calculateWritable c nodeStgs = Some (S * N * itemSize)"
    using assms(1-7) h1 h2 assms(8) h3 h4 by (rule calculateWritable_hostAware_spec)
next
  assume e: "length (IDC c) = 3 \<and> suCount = 12 \<and> length nodeStgs = 3 \<and>
          (\<forall>e \<in> set nodeStgs. map free (snd e) = replicate 4 (10 * itemSize)) \<and>
          in64 (10 * itemSize) \<and> in64 (10 * N) \<and> in64 (10 * N * itemSize)"
  then have e1: "length (IDC c) = 3" and e2: "suCount = 12"
    and e4: "\<forall>e \<in> set nodeStgs. map free (snd e) = replicate 4 (10 * itemSize)"
    and e5: "in64 (10 * itemSize)" and e6: "in64 (10 * N)" and e7: "in64 (10 * N * itemSize)"
    by simp_all
  from e1 e2 assms(5) have k: "idcSuCount = 4" by (simp add: goDiv_def)
  have st: "\<forall>e \<in> set nodeStgs. specIdcStripes (nat idcSuCount) itemSize e = 10"
  proof
    fix x assume "x \<in> set nodeStgs"
    with e4 have "map free (snd x) = replicate 4 (10 * itemSize)" by simp
    from specTokens_tens [OF assms(7) this] k show "specIdcStripes (nat idcSuCount) itemSize x = 10"
      by (simp add: specIdcStripes_def specStripeCount_four_tens)
  qed
  from assms(2) st have img: "specIdcStripes (nat idcSuCount) itemSize ` set nodeStgs = {10}"
    by (cases nodeStgs) auto
  with assms(8) have S: "S = 10" by simp
  have fr: "\<forall>e \<in> set nodeStgs. (\<forall>v \<in> set (snd e). in64 (free v)) \<and>
             specIdcStripes (nat idcSuCount) itemSize e \<le> MaxInt64"
  proof
    fix x assume x: "x \<in> set nodeStgs"
    with e4 have "map free (snd x) = replicate 4 (10 * itemSize)" by simp
    then have "set (map free (snd x)) = {10 * itemSize}" by simp
    then have "\<forall>v \<in> set (snd x). free v = 10 * itemSize" by auto
    with e5 have a: "\<forall>v \<in> set (snd x). in64 (free v)" by simp
    from st x have "specIdcStripes (nat idcSuCount) itemSize x \<le> MaxInt64"
      by (simp add: MaxInt64_def)
    with a show "(\<forall>v \<in> set (snd x). in64 (free v)) \<and>
             specIdcStripes (nat idcSuCount) itemSize x \<le> MaxInt64" by simp
  qed
  from k have k1: "1 \<le> idcSuCount" by simp
  from e6 e7 S have i1: "in64 (S * N)" and i2: "in64 (S * N * itemSize)" by simp_all
  have "calculateWritable c nodeStgs = Some (S * N * itemSize)"
    using assms(1-7) k1 fr assms(8) i1 i2 by (rule calculateWritable_hostAware_spec)
  with S have cw: "calculateWritable c nodeStgs = Some (10 * N * itemSize)" by simp
  show "idcSuCount = 4" by (rule k)
  show "\<forall>e \<in> set nodeStgs. specIdcStripes (nat idcSuCount) itemSize e = 10" by (rule st)
  show "calculateWritable c nodeStgs = Some (10 * N * itemSize)" by (rule cw)
qed

lemma exCfg_modes: "getMaxSuCount exCfg = Some ((6, 6, 0), 12)"
  by (simp add: getMaxSuCount_def exCfg_def)

theorem calculateWritable_hostAware_witness:
  "calculateWritable exCfg exThreeIdc = Some 960"
proof -
  have a: "HostAware exCfg" "exThreeIdc \<noteq> []" "IDC exCfg \<noteq> []"
    by (simp_all add: exCfg_def exThreeIdc_def)
  have k: "(4::int) = goDiv 12 (int (length (IDC exCfg)))"
    by (simp add: goDiv_def exCfg_def)
  have i: "(16::int) = (if ShardSize exCfg \<noteq> 0 then ShardSize exCfg else ChunkSize exCfg)"
    "(0::int) < 16"
    by (simp_all add: exCfg_def)
  have e: "length (IDC exCfg) = 3 \<and> (12::int) = 12 \<and> length exThreeIdc = 3 \<and>
          (\<forall>e \<in> set exThreeIdc. map free (snd e) = replicate 4 (10 * 16)) \<and>
          in64 (10 * 16) \<and> in64 (10 * 6) \<and> in64 (10 * 6 * 16)"
    by (simp add: exCfg_def exThreeIdc_def exHosts_def in64_def eval_nat_numeral)
  from calculateWritable_hostAware [OF a(1,2) exCfg_modes a(3) k i refl] e
  show ?thesis by simp
qed

text \<open>
  Claim C2 as stated fails: the minimum of the code runs over the entries of
  \<^verbatim>\<open>nodeStgs\<close>, not over the configured IDCs. With the three IDCs of \<open>exCfg\<close> and
  allocatable hosts in \<open>z0\<close> only, the code returns \<open>10 * 6 * 16 = 960\<close>, while the
  minimum over all configured IDCs is 0.
\<close>

theorem calculateWritable_missing_idc:
  "calculateWritable exCfg exOneIdc = Some 960 \<and>
   specConfiguredStripes exCfg 4 16 exOneIdc * 6 * 16 = 0"
proof -
  have a: "HostAware exCfg" "exOneIdc \<noteq> []" "IDC exCfg \<noteq> []"
    by (simp_all add: exCfg_def exOneIdc_def)
  have k: "(4::int) = goDiv 12 (int (length (IDC exCfg)))"
    by (simp add: goDiv_def exCfg_def)
  have i: "(16::int) = (if ShardSize exCfg \<noteq> 0 then ShardSize exCfg else ChunkSize exCfg)"
    "(0::int) < 16"
    by (simp_all add: exCfg_def)
  have t: "specTokens 16 exHosts = [10, 10, 10, 10]"
    by (rule specTokens_tens) (simp_all add: exHosts_def eval_nat_numeral)
  have st: "specIdcStripes (nat 4) 16 (''z0'', exHosts) = 10"
    by (simp add: specIdcStripes_def t specStripeCount_four_tens)
  have fr: "\<forall>e \<in> set exOneIdc. (\<forall>v \<in> set (snd e). in64 (free v)) \<and>
             specIdcStripes (nat 4) 16 e \<le> MaxInt64"
    using st by (simp add: exOneIdc_def exHosts_def in64_def MaxInt64_def)
  have S: "(10::int) = Min (specIdcStripes (nat 4) 16 ` set exOneIdc)"
    using st by (simp add: exOneIdc_def)
  have r: "in64 (10 * 6)" "in64 (10 * 6 * 16)" by (simp_all add: in64_def)
  have cw: "calculateWritable exCfg exOneIdc = Some (10 * 6 * 16)"
    using a(1,2) exCfg_modes a(3) k i _ fr S r by (rule calculateWritable_hostAware_spec) simp
  have z: "specStripeCount 4 [] = 0"
    by (subst specStripeCount.simps) simp
  have "specConfiguredStripes exCfg 4 16 exOneIdc = 0"
    using t by (simp add: specConfiguredStripes_def exCfg_def exOneIdc_def specTokens_def
        specStripeCount_four_tens z)
  with cw show ?thesis by simp
qed

end
